theory Spec2Isabelle
  imports Main "HOL-Library.AList"
begin

section \<open>The astro-mermaid transformers\<close>

text \<open>
  A shallow embedding of the four functions at the top of
  \<^verbatim>\<open>astro-mermaid-integration.js\<close>: \<^verbatim>\<open>escapeHtml\<close>,
  \<^verbatim>\<open>remarkMermaidPlugin\<close>, \<^verbatim>\<open>serializeHastChildren\<close> and
  \<^verbatim>\<open>rehypeMermaidPlugin\<close>.

  JavaScript strings are sequences of UTF-16 code units. They are modelled as
  \<^typ>\<open>string\<close>; the only characters the code inspects are the five ASCII characters
  of the class \<^verbatim>\<open>[&<>"']\<close> and the ASCII tag and key names, and every other
  character is copied as it is.
\<close>

subsection \<open>escapeHtml\<close>

text \<open>The lookup table \<^verbatim>\<open>htmlEntities\<close> of lines 8 to 14.\<close>

definition htmlEntities :: "(char \<times> string) list" where
  "htmlEntities =
     [(CHR ''&'', ''&amp;''),
      (CHR ''<'', ''&lt;''),
      (CHR ''>'', ''&gt;''),
      (CHR 0x22, ''&quot;''),
      (CHR 0x27, ''&#39;'')]"

text \<open>The character class of the regular expression \<^verbatim>\<open>/[&<>"']/g\<close>.\<close>

definition special :: "char \<Rightarrow> bool" where
  "special c = (c \<in> set [CHR ''&'', CHR ''<'', CHR ''>'', CHR 0x22, CHR 0x27])"

text \<open>
  The callback \<^verbatim>\<open>char => htmlEntities[char]\<close>. A key that is not in the table
  reads as \<^verbatim>\<open>undefined\<close>, which \<^verbatim>\<open>replace\<close> would insert as the
  nine letters of that word.
\<close>

definition replacer :: "char \<Rightarrow> string" where
  "replacer c = (case map_of htmlEntities c of Some e \<Rightarrow> e | None \<Rightarrow> ''undefined'')"

text \<open>
  \<^verbatim>\<open>String.prototype.replace\<close> with a global one-character class and a
  callback: the text is scanned once from left to right, every character of the class
  is replaced by what the callback returns for it, every other character is copied,
  and the scan goes on after the character it has just read.
\<close>

fun replace_each :: "(char \<Rightarrow> bool) \<Rightarrow> (char \<Rightarrow> string) \<Rightarrow> string \<Rightarrow> string" where
  "replace_each cls f [] = []"
| "replace_each cls f (c # cs) = (if cls c then f c else [c]) @ replace_each cls f cs"

definition escapeHtml :: "string \<Rightarrow> string" where
  "escapeHtml txt = replace_each special replacer txt"

subsection \<open>HTML syntax trees\<close>

text \<open>
  A property of an element holds a string, a number, a boolean, \<^verbatim>\<open>null\<close>,
  \<^verbatim>\<open>undefined\<close>, or an array of strings and numbers. The code only ever
  converts a number to a string, or compares it with a string (never equal), so a number
  is carried as its decimal rendering \<^verbatim>\<open>String(n)\<close>.
\<close>

datatype item = IStr string | INum string

datatype pvalue = VStr string | VNum string | VBool bool | VNull | VUndefined | VArr "item list"

text \<open>
  The \<^verbatim>\<open>properties\<close> object, as its entries in the order of
  \<^verbatim>\<open>Object.entries\<close>; the keys of an object are distinct.
\<close>

type_synonym properties = "(string \<times> pvalue) list"

text \<open>
  The nodes of an HTML tree: \<^verbatim>\<open>text\<close>, \<^verbatim>\<open>element\<close> (tag name,
  properties and children, the last two possibly absent: the code guards both),
  \<^verbatim>\<open>comment\<close>, \<^verbatim>\<open>doctype\<close> and \<^verbatim>\<open>root\<close>.
\<close>

datatype hnode =
    HText string
  | HElement string "properties option" "hnode list option"
  | HComment string
  | HDoctype
  | HRoot "hnode list"

subsection \<open>serializeHastChildren\<close>

fun item_String :: "item \<Rightarrow> string" where
  "item_String (IStr s) = s"
| "item_String (INum r) = r"

text \<open>\<^verbatim>\<open>Array.prototype.join\<close> on the rendered elements.\<close>

fun join :: "string \<Rightarrow> string list \<Rightarrow> string" where
  "join sep [] = []"
| "join sep [x] = x"
| "join sep (x # y # ys) = x @ sep @ join sep (y # ys)"

text \<open>
  The string a template literal inserts for a property: \<^verbatim>\<open>String(v)\<close>. An
  array is joined with commas.
\<close>

fun js_String :: "pvalue \<Rightarrow> string" where
  "js_String (VStr s) = s"
| "js_String (VNum r) = r"
| "js_String (VBool b) = (if b then ''true'' else ''false'')"
| "js_String VNull = ''null''"
| "js_String VUndefined = ''undefined''"
| "js_String (VArr xs) = join '','' (map item_String xs)"

definition selfClosingTags :: "string list" where
  "selfClosingTags = [''br'', ''hr'', ''img'', ''input'', ''meta'', ''link'']"

text \<open>
  The inner loop of lines 73 to 79 over \<^verbatim>\<open>Object.entries(child.properties)\<close>,
  with the accumulator \<^verbatim>\<open>result\<close> passed along.
\<close>

fun serialize_entries :: "string \<Rightarrow> properties \<Rightarrow> string" where
  "serialize_entries result [] = result"
| "serialize_entries result ((key, v) # entries) =
     serialize_entries
       (if key \<noteq> ''className'' then result @ '' '' @ key @ ''=\"'' @ js_String v @ ''\"''
        else (case v of
                VArr xs \<Rightarrow> result @ '' class=\"'' @ join '' '' (map item_String xs) @ ''\"''
              | _ \<Rightarrow> result))
       entries"

text \<open>
  The loop of lines 61 to 92 over the children, again with \<^verbatim>\<open>result\<close> as the
  accumulator. A node that is neither a text nor an element adds nothing. The recursive
  call of line 87 starts from an empty accumulator.
\<close>

fun serialize_loop :: "string \<Rightarrow> hnode list \<Rightarrow> string" where
  "serialize_loop result [] = result"
| "serialize_loop result (HText v # rest) = serialize_loop (result @ v) rest"
| "serialize_loop result (HElement tagName props children # rest) =
     serialize_loop
       (let selfClosing = tagName \<in> set selfClosingTags;
            result = result @ ''<'' @ tagName;
            result = (case props of Some ps \<Rightarrow> serialize_entries result ps | None \<Rightarrow> result)
        in if selfClosing then result @ ''/>''
           else let result = result @ ''>'';
                    result = (case children of
                                Some cs \<Rightarrow> if length cs > 0 then result @ serialize_loop [] cs else result
                              | None \<Rightarrow> result)
                in result @ ''</'' @ tagName @ ''>'')
       rest"
| "serialize_loop result (_ # rest) = serialize_loop result rest"

definition serializeHastChildren :: "hnode list \<Rightarrow> string" where
  "serializeHastChildren children = serialize_loop [] children"

subsection \<open>Options, the file and the observer\<close>

text \<open>
  \<^verbatim>\<open>options.logger\<close> is present or absent. What the observer is told is kept
  in the state of a run, next to the counter \<^verbatim>\<open>mermaidCount\<close>: the observer is
  an injected object whose method only receives a message.
\<close>

record options =
  logger :: bool

record vfile =
  path :: "string option"

record vstate =
  mermaidCount :: nat
  logged :: "string list"

text \<open>The decimal rendering of the counter in a template literal.\<close>

fun string_of_nat :: "nat \<Rightarrow> string" where
  "string_of_nat n =
     (if n < 10 then [''0123456789'' ! n]
      else string_of_nat (n div 10) @ [''0123456789'' ! (n mod 10)])"

declare string_of_nat.simps [simp del]

text \<open>\<^verbatim>\<open>file.path || 'unknown file'\<close>: an absent and an empty path are both falsy.\<close>

definition file_label :: "vfile \<Rightarrow> string" where
  "file_label file =
     (case path file of
        Some p \<Rightarrow> if p = [] then ''unknown file'' else p
      | None \<Rightarrow> ''unknown file'')"

text \<open>\<^verbatim>\<open>if (options.logger) options.logger.info(msg)\<close>.\<close>

definition logger_info :: "options \<Rightarrow> string \<Rightarrow> vstate \<Rightarrow> vstate" where
  "logger_info opts msg st = (if logger opts then st\<lparr>logged := logged st @ [msg]\<rparr> else st)"

subsection \<open>rehypeMermaidPlugin\<close>

text \<open>\<^verbatim>\<open>codeNode.properties?.className\<close>.\<close>

fun className_of :: "properties option \<Rightarrow> pvalue option" where
  "className_of None = None"
| "className_of (Some ps) = map_of ps ''className''"

text \<open>
  The callback of lines 107 to 139. It is given an element and changes it in place; the
  model returns the element as it is afterwards, with the state of the run. The first
  equation is the case \<^verbatim>\<open>node.children?.length === 1\<close> with a first child that
  has a tag name; the spread \<^verbatim>\<open>{...node.properties, className: ['mermaid']}\<close>
  keeps every entry where it is, overwrites the entry of \<^verbatim>\<open>className\<close> in its
  place or appends it when there is none; \<^verbatim>\<open>codeNode.children || []\<close> reads
  absent children as none.
\<close>

fun rehype_visitor :: "options \<Rightarrow> vfile \<Rightarrow> hnode \<Rightarrow> vstate \<Rightarrow> hnode \<times> vstate" where
  "rehype_visitor opts file (HElement tagName props (Some [HElement ctag cprops cchildren])) st =
     (if tagName = ''pre'' \<and> ctag = ''code'' then
        (case className_of cprops of
           Some (VArr className) \<Rightarrow>
             if IStr ''language-mermaid'' \<in> set className then
               let st = st\<lparr>mermaidCount := mermaidCount st + 1\<rparr>;
                   diagramContent =
                     serializeHastChildren (case cchildren of Some cs \<Rightarrow> cs | None \<Rightarrow> []);
                   props = AList.update ''className'' (VArr [IStr ''mermaid''])
                             (case props of Some ps \<Rightarrow> ps | None \<Rightarrow> []);
                   children = [HText (escapeHtml diagramContent)];
                   st = logger_info opts
                          (''Rehype transformed mermaid block #'' @ string_of_nat (mermaidCount st)
                             @ '' in '' @ file_label file) st
               in (HElement tagName (Some props) (Some children), st)
             else (HElement tagName props (Some [HElement ctag cprops cchildren]), st)
         | _ \<Rightarrow> (HElement tagName props (Some [HElement ctag cprops cchildren]), st))
      else (HElement tagName props (Some [HElement ctag cprops cchildren]), st))"
| "rehype_visitor opts file node st = (node, st)"

text \<open>The number of nodes of a tree: the measure of the traversal.\<close>

fun nodes :: "hnode \<Rightarrow> nat" and nodes_list :: "hnode list \<Rightarrow> nat" where
  "nodes (HText v) = 1"
| "nodes (HElement t ps None) = 1"
| "nodes (HElement t ps (Some cs)) = 1 + nodes_list cs"
| "nodes (HComment v) = 1"
| "nodes HDoctype = 1"
| "nodes (HRoot cs) = 1 + nodes_list cs"
| "nodes_list [] = 0"
| "nodes_list (c # cs) = nodes c + nodes_list cs"

text \<open>
  \<^verbatim>\<open>visit(tree, 'element', callback)\<close> of the library unist-util-visit, which the
  plugin imports: a depth-first traversal in document order. The callback is called on
  a node when the node's type is \<^verbatim>\<open>element\<close>; then the traversal goes through the
  children the node has after the call, from the first to the last. The callback
  returns nothing, so the traversal is never cut short.
\<close>

function visit_element :: "options \<Rightarrow> vfile \<Rightarrow> hnode \<Rightarrow> vstate \<Rightarrow> hnode \<times> vstate"
  and visit_element_children :: "options \<Rightarrow> vfile \<Rightarrow> hnode list \<Rightarrow> vstate \<Rightarrow> hnode list \<times> vstate"
where
  "visit_element opts file node st =
     (case (case node of HElement t ps cs \<Rightarrow> rehype_visitor opts file node st | _ \<Rightarrow> (node, st)) of
        (HElement t ps (Some cs), st1) \<Rightarrow>
          (case visit_element_children opts file cs st1 of
             (cs', st2) \<Rightarrow> (HElement t ps (Some cs'), st2))
      | (HRoot cs, st1) \<Rightarrow>
          (case visit_element_children opts file cs st1 of
             (cs', st2) \<Rightarrow> (HRoot cs', st2))
      | (node', st1) \<Rightarrow> (node', st1))"
| "visit_element_children opts file [] st = ([], st)"
| "visit_element_children opts file (c # cs) st =
     (case visit_element opts file c st of
        (c', st1) \<Rightarrow>
          (case visit_element_children opts file cs st1 of
             (cs', st2) \<Rightarrow> (c' # cs', st2)))"
  by pat_completeness auto
termination
proof -
  have pos: "\<And>n. 0 < nodes n"
  proof -
    fix n show "0 < nodes n" by (cases n rule: nodes.cases) auto
  qed
  have shrink: "\<And>opts f node st node' st1.
      (node', st1) = rehype_visitor opts f node st \<Longrightarrow> nodes node' \<le> nodes node"
  proof -
    fix opts f node st node' st1
    assume "(node', st1) = rehype_visitor opts f node st"
    then show "nodes node' \<le> nodes node"
      using pos
      by (cases "(opts, f, node, st)" rule: rehype_visitor.cases)
         (auto split: if_splits option.splits pvalue.splits simp: Let_def Suc_le_eq)
  qed
  show ?thesis
    apply (relation "measure (\<lambda>x. case x of
                Inl (opts, f, node, st) \<Rightarrow> 2 * nodes node
              | Inr (opts, f, cs, st) \<Rightarrow> 2 * nodes_list cs + 1)")
       apply (auto split: hnode.splits dest!: shrink simp: pos)
    done
qed

text \<open>
  The transformer of lines 102 to 144: the tree after the traversal, and what the
  observer was told.
\<close>

definition rehypeMermaidPlugin :: "options \<Rightarrow> hnode \<Rightarrow> vfile \<Rightarrow> hnode \<times> string list" where
  "rehypeMermaidPlugin opts tree file =
     (let st = \<lparr>mermaidCount = 0, logged = []\<rparr>;
          (tree, st) = visit_element opts file tree st;
          st = (if mermaidCount st > 0 then
                  logger_info opts
                    (''Rehype total mermaid blocks transformed: '' @ string_of_nat (mermaidCount st)) st
                else st)
      in (tree, logged st))"

subsection \<open>Markdown syntax trees and remarkMermaidPlugin\<close>

text \<open>
  The nodes of a markdown tree: a code block (language tag, possibly \<^verbatim>\<open>null\<close>;
  meta; literal text), a raw-HTML node, any other leaf (type and text) and any node with
  children (type and children).
\<close>

datatype mnode =
    MCode "string option" "string option" string
  | MHtml string
  | MLiteral string string
  | MParent string "mnode list"

text \<open>
  The callback of lines 27 to 46, given the node, its index and the children of its
  parent (both absent at the root). It returns the parent's children after the
  assignment \<^verbatim>\<open>parent.children[index] = htmlNode\<close>; the index the traversal
  passes is always within the array.
\<close>

fun remark_visitor ::
  "options \<Rightarrow> vfile \<Rightarrow> mnode \<Rightarrow> nat option \<Rightarrow> mnode list option \<Rightarrow> vstate
     \<Rightarrow> mnode list option \<times> vstate" where
  "remark_visitor opts file (MCode lang meta v) index parent st =
     (if lang = Some ''mermaid'' then
        let st = st\<lparr>mermaidCount := mermaidCount st + 1\<rparr>;
            htmlNode = MHtml (''<pre class=\"mermaid\">'' @ escapeHtml v @ ''</pre>'');
            parent = (case (parent, index) of
                        (Some children, Some i) \<Rightarrow> Some (children[i := htmlNode])
                      | _ \<Rightarrow> parent);
            st = logger_info opts
                   (''Remark transformed mermaid block #'' @ string_of_nat (mermaidCount st)
                      @ '' in '' @ file_label file) st
        in (parent, st)
      else (parent, st))"
| "remark_visitor opts file node index parent st = (parent, st)"

fun msize :: "mnode \<Rightarrow> nat" and msize_list :: "mnode list \<Rightarrow> nat" where
  "msize (MParent k cs) = 1 + msize_list cs"
| "msize node = 1"
| "msize_list [] = 0"
| "msize_list (c # cs) = msize c + msize_list cs"

text \<open>
  \<^verbatim>\<open>visit(tree, 'code', callback)\<close>: \<open>visit_code\<close> goes through the children
  of a node, \<open>visit_code_from\<close> is the library's loop over an array of children from
  an offset, reading \<^verbatim>\<open>children[offset]\<close> and the length of the array at each
  turn. On a code block the callback runs and may write the slot; a code block has no
  children to go into. Any other child is traversed in place.
\<close>

function visit_code :: "options \<Rightarrow> vfile \<Rightarrow> mnode \<Rightarrow> vstate \<Rightarrow> mnode \<times> vstate"
  and visit_code_from :: "options \<Rightarrow> vfile \<Rightarrow> mnode list \<Rightarrow> nat \<Rightarrow> vstate \<Rightarrow> mnode list \<times> vstate"
where
  "visit_code opts file node st =
     (case node of
        MParent k children \<Rightarrow>
          (case visit_code_from opts file children 0 st of
             (children', st1) \<Rightarrow> (MParent k children', st1))
      | _ \<Rightarrow> (node, st))"
| "visit_code_from opts file children offset st =
     (if offset < length children then
        (case children ! offset of
           MCode lang meta v \<Rightarrow>
             (case remark_visitor opts file (MCode lang meta v) (Some offset) (Some children) st of
                (Some children1, st1) \<Rightarrow> visit_code_from opts file children1 (offset + 1) st1
              | (None, st1) \<Rightarrow> visit_code_from opts file children (offset + 1) st1)
         | child \<Rightarrow>
             (case visit_code opts file child st of
                (child', st1) \<Rightarrow> visit_code_from opts file (children[offset := child']) (offset + 1) st1))
      else (children, st))"
  by pat_completeness auto
termination
proof -
  have pos: "\<And>n. 0 < msize n"
  proof -
    fix n show "0 < msize n" by (cases n) auto
  qed
  have step: "\<And>cs i. i < length cs \<Longrightarrow>
      msize_list (drop i cs) = msize (cs ! i) + msize_list (drop (Suc i) cs)"
  proof -
    fix cs :: "mnode list" and i assume "i < length cs"
    then have "drop i cs = cs ! i # drop (Suc i) cs" by (simp add: Cons_nth_drop_Suc)
    then show "msize_list (drop i cs) = msize (cs ! i) + msize_list (drop (Suc i) cs)" by simp
  qed
  have vis: "\<And>opts f n i cs st cs1 st1.
      (Some cs1, st1) = remark_visitor opts f n (Some i) (Some cs) st \<Longrightarrow>
      drop (Suc i) cs1 = drop (Suc i) cs"
  proof -
    fix opts f n i cs st cs1 st1
    assume "(Some cs1, st1) = remark_visitor opts f n (Some i) (Some cs) st"
    then show "drop (Suc i) cs1 = drop (Suc i) cs"
      by (cases n) (auto simp: Let_def split: if_splits)
  qed
  show ?thesis
    apply (relation "measure (\<lambda>x. case x of
                Inl (opts, f, node, st) \<Rightarrow> 2 * msize node
              | Inr (opts, f, cs, i, st) \<Rightarrow> 2 * msize_list (drop i cs) + 1)")
         apply (auto simp: step pos simp del: remark_visitor.simps dest!: vis)
    done
qed

text \<open>
  The transformer of lines 22 to 51. The traversal starts at the root, which has no
  parent and no index: on a root that is itself a code block the callback counts and
  reports but has no slot to write.
\<close>

definition remarkMermaidPlugin :: "options \<Rightarrow> mnode \<Rightarrow> vfile \<Rightarrow> mnode \<times> string list" where
  "remarkMermaidPlugin opts tree file =
     (let st = \<lparr>mermaidCount = 0, logged = []\<rparr>;
          st = (case tree of
                  MCode lang meta v \<Rightarrow> snd (remark_visitor opts file tree None None st)
                | _ \<Rightarrow> st);
          (tree, st) = visit_code opts file tree st;
          st = (if mermaidCount st > 0 then
                  logger_info opts
                    (''Remark total mermaid blocks transformed: '' @ string_of_nat (mermaidCount st)) st
                else st)
      in (tree, logged st))"

subsection \<open>The contract of escaping, in the words of the specification\<close>

text \<open>
  The specification's contract: each of the five characters is replaced by its named
  entity and no other character is modified.
\<close>

definition entity_of :: "char \<Rightarrow> string" where
  "entity_of c =
     (if c = CHR ''&'' then ''&amp;''
      else if c = CHR ''<'' then ''&lt;''
      else if c = CHR ''>'' then ''&gt;''
      else if c = CHR 0x22 then ''&quot;''
      else if c = CHR 0x27 then ''&#39;''
      else [c])"

text \<open>
  The specification's unescaping: the inverse of the five substitutions, read in one
  pass from left to right. An ampersand that starts one of the five entities is decoded
  and the scan goes on after the entity; every other character is copied.
\<close>

function unescapeHtml :: "string \<Rightarrow> string" where
  "unescapeHtml [] = []"
| "unescapeHtml (c # cs) =
     (if c = CHR ''&'' \<and> take 4 cs = ''amp;'' then CHR ''&'' # unescapeHtml (drop 4 cs)
      else if c = CHR ''&'' \<and> take 3 cs = ''lt;'' then CHR ''<'' # unescapeHtml (drop 3 cs)
      else if c = CHR ''&'' \<and> take 3 cs = ''gt;'' then CHR ''>'' # unescapeHtml (drop 3 cs)
      else if c = CHR ''&'' \<and> take 5 cs = ''quot;'' then CHR 0x22 # unescapeHtml (drop 5 cs)
      else if c = CHR ''&'' \<and> take 4 cs = ''#39;'' then CHR 0x27 # unescapeHtml (drop 4 cs)
      else c # unescapeHtml cs)"
  by pat_completeness auto
termination
  by (relation "measure length") auto

subsection \<open>The layout of the serialized string\<close>

text \<open>
  What one property adds to the opening tag in the words of claim C5: every property as
  a space, the key, and the value between double quotes, the key
  \<^verbatim>\<open>className\<close> being special only when its value is an array, and then
  written as the attribute \<^verbatim>\<open>class\<close> with the elements joined by single
  spaces.
\<close>

definition claimed_attribute :: "string \<times> pvalue \<Rightarrow> string" where
  "claimed_attribute entry =
     (case entry of (key, v) \<Rightarrow>
        (case (key = ''className'', v) of
           (True, VArr xs) \<Rightarrow> '' class=\"'' @ join '' '' (map item_String xs) @ ''\"''
         | _ \<Rightarrow> '' '' @ key @ ''=\"'' @ js_String v @ ''\"''))"

text \<open>
  What one property adds to the opening tag in the amended claim: as above, except that
  a \<^verbatim>\<open>className\<close> whose value is not an array adds nothing.
\<close>

definition attribute :: "string \<times> pvalue \<Rightarrow> string" where
  "attribute entry =
     (case entry of (key, v) \<Rightarrow>
        if key = ''className''
        then (case v of VArr xs \<Rightarrow> '' class=\"'' @ join '' '' (map item_String xs) @ ''\"'' | _ \<Rightarrow> [])
        else '' '' @ key @ ''=\"'' @ js_String v @ ''\"'')"

text \<open>
  What one child adds to the string: a text its content; an element its opening tag
  with its attributes in stored order, then \<^verbatim>\<open>/>\<close> for one of the six tags and
  otherwise \<^verbatim>\<open>>\<close>, its children and its closing tag; any other node nothing.
\<close>

fun contribution :: "hnode \<Rightarrow> string" where
  "contribution (HText v) = v"
| "contribution (HElement t ps None) =
     ''<'' @ t @ concat (map attribute (case ps of Some p \<Rightarrow> p | None \<Rightarrow> []))
       @ (if t \<in> set selfClosingTags then ''/>'' else ''>'' @ ''</'' @ t @ ''>'')"
| "contribution (HElement t ps (Some ks)) =
     ''<'' @ t @ concat (map attribute (case ps of Some p \<Rightarrow> p | None \<Rightarrow> []))
       @ (if t \<in> set selfClosingTags then ''/>''
          else ''>'' @ concat (map contribution ks) @ ''</'' @ t @ ''>'')"
| "contribution node = []"

subsection \<open>The HTML transformer as a function on trees\<close>

text \<open>
  The match of lines 109 to 117: a \<^verbatim>\<open>pre\<close> with exactly one child, that child
  a \<^verbatim>\<open>code\<close> element whose \<^verbatim>\<open>className\<close> is an array holding the
  token \<^verbatim>\<open>language-mermaid\<close>.
\<close>

fun is_mermaid_pre :: "hnode \<Rightarrow> bool" where
  "is_mermaid_pre (HElement tagName props (Some [HElement ctag cprops cchildren])) =
     (tagName = ''pre'' \<and> ctag = ''code'' \<and>
      (case className_of cprops of
         Some (VArr className) \<Rightarrow> IStr ''language-mermaid'' \<in> set className
       | _ \<Rightarrow> False))"
| "is_mermaid_pre node = False"

text \<open>The diagram container a matching element is rewritten to.\<close>

fun container :: "hnode \<Rightarrow> hnode" where
  "container (HElement t ps (Some [HElement ct cps ccs])) =
     HElement t
       (Some (AList.update ''className'' (VArr [IStr ''mermaid'']) (case ps of Some p \<Rightarrow> p | None \<Rightarrow> [])))
       (Some [HText (escapeHtml (serializeHastChildren (case ccs of Some cs \<Rightarrow> cs | None \<Rightarrow> [])))])"
| "container node = node"

text \<open>
  The tree the traversal leaves: a matching element becomes its container, and the
  children of every other node are rewritten in place.
\<close>

fun rehype_tree :: "hnode \<Rightarrow> hnode" where
  "rehype_tree (HElement t ps cs) =
     (if is_mermaid_pre (HElement t ps cs) then container (HElement t ps cs)
      else HElement t ps (map_option (map rehype_tree) cs))"
| "rehype_tree (HRoot cs) = HRoot (map rehype_tree cs)"
| "rehype_tree node = node"

text \<open>Some node of the tree matches.\<close>

fun has_mermaid_pre :: "hnode \<Rightarrow> bool" where
  "has_mermaid_pre (HElement t ps cs) =
     (is_mermaid_pre (HElement t ps cs) \<or>
      (case cs of Some ks \<Rightarrow> list_ex has_mermaid_pre ks | None \<Rightarrow> False))"
| "has_mermaid_pre (HRoot cs) = list_ex has_mermaid_pre cs"
| "has_mermaid_pre node = False"

text \<open>
  The node at a position of a tree, a position being the list of child indices from the
  root; and the positions the traversal walks to: those with no matching element
  strictly above them (below a matching element the traversal finds the container's
  text).
\<close>

fun hsub :: "hnode \<Rightarrow> nat list \<Rightarrow> hnode option" where
  "hsub node [] = Some node"
| "hsub (HElement t ps (Some cs)) (i # p) = (if i < length cs then hsub (cs ! i) p else None)"
| "hsub (HRoot cs) (i # p) = (if i < length cs then hsub (cs ! i) p else None)"
| "hsub node (i # p) = None"

fun reached :: "hnode \<Rightarrow> nat list \<Rightarrow> bool" where
  "reached node [] = True"
| "reached (HElement t ps (Some cs)) (i # p) =
     (\<not> is_mermaid_pre (HElement t ps (Some cs)) \<and> i < length cs \<and> reached (cs ! i) p)"
| "reached (HRoot cs) (i # p) = (i < length cs \<and> reached (cs ! i) p)"
| "reached node (i # p) = False"

text \<open>The properties of a node: none when they are absent.\<close>

fun props_of :: "hnode \<Rightarrow> properties" where
  "props_of (HElement t (Some ps) cs) = ps"
| "props_of node = []"

subsection \<open>The markdown transformer as a function on trees\<close>

text \<open>
  What the traversal leaves in the slot of a child: the raw-HTML node for a code block
  tagged \<^verbatim>\<open>mermaid\<close>, the child itself for any other leaf, and a parent with
  its own slots rewritten. The root has no slot.
\<close>

fun remark_slot :: "mnode \<Rightarrow> mnode" where
  "remark_slot (MCode lang meta v) =
     (if lang = Some ''mermaid'' then MHtml (''<pre class=\"mermaid\">'' @ escapeHtml v @ ''</pre>'')
      else MCode lang meta v)"
| "remark_slot (MParent k cs) = MParent k (map remark_slot cs)"
| "remark_slot node = node"

fun remark_root :: "mnode \<Rightarrow> mnode" where
  "remark_root (MParent k cs) = MParent k (map remark_slot cs)"
| "remark_root node = node"

fun msub :: "mnode \<Rightarrow> nat list \<Rightarrow> mnode option" where
  "msub node [] = Some node"
| "msub (MParent k cs) (i # p) = (if i < length cs then msub (cs ! i) p else None)"
| "msub node (i # p) = None"

text \<open>Some code block of the tree is tagged \<^verbatim>\<open>mermaid\<close>.\<close>

fun has_mermaid_code :: "mnode \<Rightarrow> bool" where
  "has_mermaid_code (MCode lang meta v) = (lang = Some ''mermaid'')"
| "has_mermaid_code (MParent k cs) = list_ex has_mermaid_code cs"
| "has_mermaid_code node = False"

subsection \<open>Counting occurrences\<close>

text \<open>The number of positions of a text at which a pattern starts.\<close>

fun occurrences :: "string \<Rightarrow> string \<Rightarrow> nat" where
  "occurrences pat [] = 0"
| "occurrences pat (c # cs) = (if take (length pat) (c # cs) = pat then 1 else 0) + occurrences pat cs"

text \<open>A word none of whose characters is escaped.\<close>

definition plain :: "string \<Rightarrow> bool" where
  "plain w = list_all (\<lambda>c. \<not> special c) w"

declare visit_element.simps [simp del]
declare visit_code.simps [simp del] visit_code_from.simps [simp del]

section \<open>Properties of escapeHtml\<close>

lemma replacer_entity_of: "(if special c then replacer c else [c]) = entity_of c"
  by (simp add: special_def replacer_def htmlEntities_def entity_of_def)

lemma escapeHtml_Nil: "escapeHtml [] = []"
  by (simp add: escapeHtml_def)

lemma escapeHtml_Cons: "escapeHtml (c # cs) = entity_of c @ escapeHtml cs"
  using replacer_entity_of [of c] by (simp add: escapeHtml_def)

lemma escapeHtml_append: "escapeHtml (a @ b) = escapeHtml a @ escapeHtml b"
  by (induction a) (simp_all add: escapeHtml_Nil escapeHtml_Cons)

lemma escapeHtml_concat: "escapeHtml s = concat (map entity_of s)"
  by (induction s) (simp_all add: escapeHtml_Nil escapeHtml_Cons)

lemma special_table: "special c = (c \<in> dom (map_of htmlEntities))"
  by (auto simp: special_def htmlEntities_def dom_def)

lemma entity_of_set:
  "set (entity_of c) \<inter> {CHR ''<'', CHR ''>'', CHR 0x22, CHR 0x27} = {}"
  by (simp add: entity_of_def)

lemma escapeHtml_set:
  "set (escapeHtml s) \<inter> {CHR ''<'', CHR ''>'', CHR 0x22, CHR 0x27} = {}"
proof (induction s)
  case Nil
  show ?case by (simp add: escapeHtml_Nil)
next
  case (Cons c cs)
  have "set (escapeHtml (c # cs)) = set (entity_of c) \<union> set (escapeHtml cs)"
    by (simp add: escapeHtml_Cons)
  with Cons entity_of_set [of c] show ?case
    by (simp add: Int_Un_distrib2)
qed

lemma unescapeHtml_entity:
  "unescapeHtml (entity_of c @ r) = c # unescapeHtml r"
  by (simp add: entity_of_def)

lemma unescapeHtml_escapeHtml: "unescapeHtml (escapeHtml s) = s"
  by (induction s) (simp_all only: escapeHtml_Nil escapeHtml_Cons unescapeHtml_entity unescapeHtml.simps(1))

text \<open>
  Claim C3. For every string, \<open>escapeHtml\<close> is the string in which each character
  is replaced by its entity when it is one of the five and is kept otherwise: the
  concatenation, in order, of the images of the characters. The replacement is by
  original position (the escaping of a concatenation is the concatenation of the
  escapings, so entity text is never scanned again), the regular expression's class is
  exactly the set of keys of the table (the lookup never misses), and the empty string
  is mapped to the empty string.
\<close>

theorem escapeHtml_contract:
  "escapeHtml s = concat (map entity_of s)
   \<and> escapeHtml (a @ b) = escapeHtml a @ escapeHtml b
   \<and> special c = (c \<in> dom (map_of htmlEntities))
   \<and> escapeHtml [] = []"
  using escapeHtml_concat [of s] escapeHtml_append [of a b] special_table [of c] escapeHtml_Nil
  by simp

theorem escapeHtml_contract_witness:
  "escapeHtml ''a<b>&\"c\"'' = ''a&lt;b&gt;&amp;&quot;c&quot;''
   \<and> escapeHtml (''&'' @ ''amp;'') = escapeHtml ''&'' @ escapeHtml ''amp;''
   \<and> special (CHR ''&'') = (CHR ''&'' \<in> dom (map_of htmlEntities))
   \<and> escapeHtml [] = []"
proof -
  have "escapeHtml ''a<b>&\"c\"'' = concat (map entity_of ''a<b>&\"c\"'')"
    using escapeHtml_contract [of "''a<b>&\"c\"''" "''&''" "''amp;''" "CHR ''&''"] by blast
  then have "escapeHtml ''a<b>&\"c\"'' = ''a&lt;b&gt;&amp;&quot;c&quot;''"
    by (simp add: entity_of_def)
  with escapeHtml_contract [of "''a<b>&\"c\"''" "''&''" "''amp;''" "CHR ''&''"]
  show ?thesis by blast
qed

text \<open>
  Claim C4. For every string \<open>s\<close>, the escaped string holds none of the characters
  \<^verbatim>\<open><\<close>, \<^verbatim>\<open>>\<close>, the double quote and the single quote; unescaping it gives
  \<open>s\<close> back; and escaping is injective.
\<close>

theorem escapeHtml_roundtrip:
  "CHR ''<'' \<notin> set (escapeHtml s)
   \<and> CHR ''>'' \<notin> set (escapeHtml s)
   \<and> CHR 0x22 \<notin> set (escapeHtml s)
   \<and> CHR 0x27 \<notin> set (escapeHtml s)
   \<and> unescapeHtml (escapeHtml s) = s
   \<and> ((escapeHtml s = escapeHtml t) = (s = t))"
proof -
  have inj: "(escapeHtml s = escapeHtml t) = (s = t)"
    using unescapeHtml_escapeHtml [of s] unescapeHtml_escapeHtml [of t] by metis
  from escapeHtml_set [of s] unescapeHtml_escapeHtml [of s] inj show ?thesis
    by auto
qed

theorem escapeHtml_roundtrip_witness:
  "unescapeHtml (escapeHtml ''A[<u>B</u>] &amp; \"q\"'') = ''A[<u>B</u>] &amp; \"q\"''
   \<and> CHR ''<'' \<notin> set (escapeHtml ''A[<u>B</u>] &amp; \"q\"'')"
  using escapeHtml_roundtrip [of "''A[<u>B</u>] &amp; \"q\"''" "[]"]
  by simp

section \<open>The transformers as tree functions\<close>

lemma serialize_entries_acc: "serialize_entries result ps = result @ concat (map attribute ps)"
  by (induction ps arbitrary: result) (auto simp: attribute_def split: pvalue.splits)

lemma serialize_loop_acc:
  fixes d :: string
  shows "serialize_loop r cs = r @ concat (map contribution cs)"
proof (induction d cs arbitrary: r rule: serialize_loop.induct)
  case (1 result)
  show ?case by simp
next
  case (2 result v rest)
  show ?case by (simp add: "2.IH")
next
  case (3 result tagName props children rest)
  show ?case
  proof (cases children)
    case None
    then show ?thesis
      by (simp add: "3.IH"(2) Let_def serialize_entries_acc split: option.splits)
  next
    case (Some ks)
    show ?thesis
    proof (cases "tagName \<in> set selfClosingTags \<or> ks = []")
      case True
      then show ?thesis using Some
        by (auto simp add: "3.IH"(2) Let_def serialize_entries_acc split: option.splits)
    next
      case False
      then have "\<And>r. serialize_loop r ks = r @ concat (map contribution ks)"
        using "3.IH"(1) [OF refl refl refl _ refl Some] by simp
      then show ?thesis using Some False
        by (simp add: "3.IH"(2) Let_def serialize_entries_acc split: option.splits)
    qed
  qed
qed simp_all

lemma serialize_contribution: "serializeHastChildren cs = concat (map contribution cs)"
  by (simp add: serializeHastChildren_def serialize_loop_acc)

lemma rehype_visitor_tree:
  "fst (rehype_visitor opts vf n st) = (if is_mermaid_pre n then container n else n)"
  by (cases "(opts, vf, n, st)" rule: rehype_visitor.cases)
     (auto simp: Let_def split: option.splits pvalue.splits)

lemma rehype_tree_step:
  "rehype_tree node =
     (case (if is_mermaid_pre node then container node else node) of
        HElement t ps (Some cs) \<Rightarrow> HElement t ps (Some (map rehype_tree cs))
      | HRoot cs \<Rightarrow> HRoot (map rehype_tree cs)
      | n' \<Rightarrow> n')"
proof (cases "is_mermaid_pre node")
  case True
  then show ?thesis
    by (cases node rule: is_mermaid_pre.cases) simp_all
next
  case False
  then show ?thesis
    by (cases node) (auto split: option.splits)
qed

lemma is_mermaid_pre_shape:
  "is_mermaid_pre n \<Longrightarrow> \<exists>t ps ct cps ccs. n = HElement t ps (Some [HElement ct cps ccs])"
  by (cases n rule: is_mermaid_pre.cases) simp_all

lemma container_shape:
  "is_mermaid_pre n \<Longrightarrow> \<exists>t ps e. container n = HElement t ps (Some [HText e])"
  by (cases n rule: is_mermaid_pre.cases) simp_all

lemma visit_element_unfold:
  assumes "(case node of HElement t ps cs \<Rightarrow> rehype_visitor opts vf node st | _ \<Rightarrow> (node, st)) = (n', st1)"
  shows "visit_element opts vf node st =
     (case n' of
        HElement t ps (Some cs) \<Rightarrow>
          (HElement t ps (Some (fst (visit_element_children opts vf cs st1))),
           snd (visit_element_children opts vf cs st1))
      | HRoot cs \<Rightarrow>
          (HRoot (fst (visit_element_children opts vf cs st1)),
           snd (visit_element_children opts vf cs st1))
      | _ \<Rightarrow> (n', st1))"
  by (subst visit_element.simps, simp only: assms)
     (simp add: split_beta split: hnode.splits option.splits)

lemma visited_node:
  assumes "(case node of HElement t ps cs \<Rightarrow> rehype_visitor opts vf node st | _ \<Rightarrow> (node, st)) = (n', st1)"
  shows "n' = (if is_mermaid_pre node then container node else node)"
proof (cases node)
  case (HElement t ps cs)
  with assms have "rehype_visitor opts vf node st = (n', st1)" by simp
  then have "n' = fst (rehype_visitor opts vf node st)" by simp
  then show ?thesis by (simp only: rehype_visitor_tree)
qed (use assms in auto)

lemma visit_element_tree:
  "fst (visit_element opts vf node st) = rehype_tree node"
  "fst (visit_element_children opts vf cs st) = map rehype_tree cs"
proof (induction opts vf node st and opts vf cs st rule: visit_element_visit_element_children.induct)
  case (1 opts vf node st)
  obtain n' st1 where v:
    "(case node of HElement t ps cs \<Rightarrow> rehype_visitor opts vf node st | _ \<Rightarrow> (node, st)) = (n', st1)"
    by (metis surj_pair)
  note n' = visited_node [OF v]
  note u = visit_element_unfold [OF v]
  show ?case
  proof (cases n')
    case (HElement t ps cs)
    show ?thesis
    proof (cases cs)
      case None
      have "fst (visit_element opts vf node st) = n'"
        unfolding u using HElement None by simp
      moreover have "rehype_tree node = n'"
        by (subst rehype_tree_step, fold n') (simp add: HElement None)
      ultimately show ?thesis by simp
    next
      case (Some ks)
      from "1.IH"(1) [OF v [symmetric] HElement Some]
      have ih: "fst (visit_element_children opts vf ks st1) = map rehype_tree ks" .
      have "fst (visit_element opts vf node st) = HElement t ps (Some (map rehype_tree ks))"
        unfolding u using HElement Some ih by simp
      moreover have "rehype_tree node = HElement t ps (Some (map rehype_tree ks))"
        by (subst rehype_tree_step, fold n') (simp add: HElement Some)
      ultimately show ?thesis by simp
    qed
  next
    case (HRoot ks)
    from "1.IH"(2) [OF v [symmetric] HRoot]
    have ih: "fst (visit_element_children opts vf ks st1) = map rehype_tree ks" .
    have "fst (visit_element opts vf node st) = HRoot (map rehype_tree ks)"
      unfolding u using HRoot ih by simp
    moreover have "rehype_tree node = HRoot (map rehype_tree ks)"
      by (subst rehype_tree_step, fold n') (simp add: HRoot)
    ultimately show ?thesis by simp
  next
    case (HText x)
    have "fst (visit_element opts vf node st) = n'" unfolding u using HText by simp
    moreover have "rehype_tree node = n'"
      by (subst rehype_tree_step, fold n') (simp add: HText)
    ultimately show ?thesis by simp
  next
    case (HComment x)
    have "fst (visit_element opts vf node st) = n'" unfolding u using HComment by simp
    moreover have "rehype_tree node = n'"
      by (subst rehype_tree_step, fold n') (simp add: HComment)
    ultimately show ?thesis by simp
  next
    case HDoctype
    have "fst (visit_element opts vf node st) = n'" unfolding u using HDoctype by simp
    moreover have "rehype_tree node = n'"
      by (subst rehype_tree_step, fold n') (simp add: HDoctype)
    ultimately show ?thesis by simp
  qed
next
  case (2 opts vf st)
  show ?case by simp
next
  case (3 opts vf c cs st)
  obtain c' st1 where c: "visit_element opts vf c st = (c', st1)" by (metis surj_pair)
  from "3.IH"(1) c have c': "c' = rehype_tree c" by simp
  from "3.IH"(2) [OF c [symmetric]]
  have "fst (visit_element_children opts vf cs st1) = map rehype_tree cs" .
  with c c' show ?case
    by (simp add: split_beta)
qed

lemma rehype_plugin_tree: "fst (rehypeMermaidPlugin opts tree vf) = rehype_tree tree"
  using visit_element_tree(1) [of opts vf tree "\<lparr>mermaidCount = 0, logged = []\<rparr>"]
  by (simp add: rehypeMermaidPlugin_def Let_def split_beta)

lemma remark_visitor_slot:
  assumes "i < length cs" and "cs ! i = MCode l m v"
  shows "fst (remark_visitor opts vf (MCode l m v) (Some i) (Some cs) st)
         = Some (cs[i := remark_slot (cs ! i)])"
proof (cases "l = Some ''mermaid''")
  case True
  then show ?thesis using assms by (simp add: Let_def)
next
  case False
  have "cs[i := cs ! i] = cs" by (rule list_update_id)
  with False assms show ?thesis by simp
qed

lemma slot_step:
  "i < length cs \<Longrightarrow>
   take (Suc i) (cs[i := x]) @ map f (drop (Suc i) (cs[i := x])) = take i cs @ x # map f (drop (Suc i) cs)"
  by (simp add: take_Suc_conv_app_nth)

lemma drop_step: "i < length cs \<Longrightarrow> map f (drop i cs) = f (cs ! i) # map f (drop (Suc i) cs)"
  by (simp add: Cons_nth_drop_Suc [symmetric])

lemma visit_code_tree:
  "fst (visit_code opts vf node st) = remark_root node"
  "fst (visit_code_from opts vf cs i st) = take i cs @ map remark_slot (drop i cs)"
proof (induction opts vf node st and opts vf cs i st rule: visit_code_visit_code_from.induct)
  case (1 opts vf node st)
  show ?case
  proof (cases node)
    case (MParent k ks)
    from "1.IH" [OF MParent] have "fst (visit_code_from opts vf ks 0 st) = map remark_slot ks" by simp
    with MParent show ?thesis
      by (subst visit_code.simps) (simp add: split_beta)
  qed (subst visit_code.simps, simp)+
next
  case (2 opts vf cs i st)
  show ?case
  proof (cases "i < length cs")
    case False
    then show ?thesis by (subst visit_code_from.simps) simp
  next
    case True
    show ?thesis
    proof (cases "cs ! i")
      case (MCode l m v)
      obtain r st1 where r: "remark_visitor opts vf (MCode l m v) (Some i) (Some cs) st = (r, st1)"
        by (metis surj_pair)
      from remark_visitor_slot [OF True MCode, of opts vf st] r
      have r': "r = Some (cs[i := remark_slot (cs ! i)])" by simp
      from "2.IH"(2) [OF True MCode r [symmetric] r']
      have "fst (visit_code_from opts vf (cs[i := remark_slot (cs ! i)]) (i + 1) st1)
            = take (i + 1) (cs[i := remark_slot (cs ! i)])
              @ map remark_slot (drop (i + 1) (cs[i := remark_slot (cs ! i)]))" .
      then have "fst (visit_code_from opts vf (cs[i := remark_slot (cs ! i)]) (i + 1) st1)
            = take i cs @ map remark_slot (drop i cs)"
        using slot_step [OF True, of "remark_slot (cs ! i)" remark_slot]
              drop_step [OF True, of remark_slot] by simp
      moreover have "visit_code_from opts vf cs i st
            = visit_code_from opts vf (cs[i := remark_slot (cs ! i)]) (i + 1) st1"
        by (subst visit_code_from.simps) (simp add: True MCode r r' del: remark_visitor.simps)
      ultimately show ?thesis by simp
    next
      case (MHtml x)
      obtain c' st1 where c: "visit_code opts vf (MHtml x) st = (c', st1)" by (metis surj_pair)
      from "2.IH"(3) [OF True MHtml] c have c': "c' = remark_slot (cs ! i)" by (simp add: MHtml)
      from "2.IH"(4) [OF True MHtml c [symmetric]]
      have "fst (visit_code_from opts vf (cs[i := c']) (i + 1) st1)
            = take (i + 1) (cs[i := c']) @ map remark_slot (drop (i + 1) (cs[i := c']))" .
      then have "fst (visit_code_from opts vf (cs[i := c']) (i + 1) st1)
            = take i cs @ map remark_slot (drop i cs)"
        using slot_step [OF True, of c' remark_slot] drop_step [OF True, of remark_slot] c' by simp
      moreover have "visit_code_from opts vf cs i st = visit_code_from opts vf (cs[i := c']) (i + 1) st1"
        by (subst visit_code_from.simps) (simp add: True MHtml c)
      ultimately show ?thesis by simp
    next
      case (MLiteral k x)
      obtain c' st1 where c: "visit_code opts vf (MLiteral k x) st = (c', st1)" by (metis surj_pair)
      from "2.IH"(5) [OF True MLiteral] c have c': "c' = remark_slot (cs ! i)" by (simp add: MLiteral)
      from "2.IH"(6) [OF True MLiteral c [symmetric]]
      have "fst (visit_code_from opts vf (cs[i := c']) (i + 1) st1)
            = take (i + 1) (cs[i := c']) @ map remark_slot (drop (i + 1) (cs[i := c']))" .
      then have "fst (visit_code_from opts vf (cs[i := c']) (i + 1) st1)
            = take i cs @ map remark_slot (drop i cs)"
        using slot_step [OF True, of c' remark_slot] drop_step [OF True, of remark_slot] c' by simp
      moreover have "visit_code_from opts vf cs i st = visit_code_from opts vf (cs[i := c']) (i + 1) st1"
        by (subst visit_code_from.simps) (simp add: True MLiteral c)
      ultimately show ?thesis by simp
    next
      case (MParent k ks)
      obtain c' st1 where c: "visit_code opts vf (MParent k ks) st = (c', st1)" by (metis surj_pair)
      from "2.IH"(7) [OF True MParent] c have c': "c' = remark_slot (cs ! i)" by (simp add: MParent)
      from "2.IH"(8) [OF True MParent c [symmetric]]
      have "fst (visit_code_from opts vf (cs[i := c']) (i + 1) st1)
            = take (i + 1) (cs[i := c']) @ map remark_slot (drop (i + 1) (cs[i := c']))" .
      then have "fst (visit_code_from opts vf (cs[i := c']) (i + 1) st1)
            = take i cs @ map remark_slot (drop i cs)"
        using slot_step [OF True, of c' remark_slot] drop_step [OF True, of remark_slot] c' by simp
      moreover have "visit_code_from opts vf cs i st = visit_code_from opts vf (cs[i := c']) (i + 1) st1"
        by (subst visit_code_from.simps) (simp add: True MParent c)
      ultimately show ?thesis by simp
    qed
  qed
qed

lemma remark_plugin_tree: "fst (remarkMermaidPlugin opts tree vf) = remark_root tree"
  by (simp add: remarkMermaidPlugin_def Let_def split_beta visit_code_tree(1))

lemma occ_amp_step:
  "occurrences ''&amp;'' (entity_of c @ r) = (if c = CHR ''&'' then 1 else 0) + occurrences ''&amp;'' r"
  by (simp add: entity_of_def)

lemma occurrences_amp: "occurrences ''&amp;'' (escapeHtml s) = count_list s (CHR ''&'')"
  by (induction s) (simp_all add: escapeHtml_Nil escapeHtml_Cons occ_amp_step del: occurrences.simps(2))

lemma occ_ampamp_step:
  "occurrences ''&amp;amp;'' (entity_of c @ r)
     = (if c = CHR ''&'' \<and> take 4 r = ''amp;'' then 1 else 0) + occurrences ''&amp;amp;'' r"
  by (simp add: entity_of_def eval_nat_numeral)

lemma take_escapeHtml_plain:
  "plain w \<Longrightarrow> (take (length w) (escapeHtml s) = w) = (take (length w) s = w)"
proof (induction w arbitrary: s)
  case Nil
  show ?case by simp
next
  case (Cons x w)
  then have x: "\<not> special x" and w: "plain w" by (simp_all add: plain_def)
  show ?case
  proof (cases s)
    case Nil
    then show ?thesis by (simp add: escapeHtml_Nil)
  next
    case c: (Cons c cs)
    show ?thesis
    proof (cases "special c")
      case True
      then obtain e where e: "entity_of c = CHR ''&'' # e"
        by (auto simp: special_def entity_of_def)
      from x have "x \<noteq> CHR ''&''" by (auto simp: special_def)
      moreover from x True have "x \<noteq> c" by auto
      ultimately show ?thesis using c e by (simp add: escapeHtml_Cons)
    next
      case False
      then have "entity_of c = [c]" by (auto simp: special_def entity_of_def)
      with c Cons.IH [OF w, of cs] show ?thesis by (simp add: escapeHtml_Cons)
    qed
  qed
qed

lemma take_amp_escapeHtml: "(take 4 (escapeHtml cs) = ''amp;'') = (take 4 cs = ''amp;'')"
proof -
  have p: "plain ''amp;''" by (simp add: plain_def special_def)
  show ?thesis using take_escapeHtml_plain [OF p, of cs] by (simp add: eval_nat_numeral)
qed

lemma occ_amp_source:
  "occurrences ''&amp;'' (c # cs)
     = (if c = CHR ''&'' \<and> take 4 cs = ''amp;'' then 1 else 0) + occurrences ''&amp;'' cs"
  by (auto simp add: eval_nat_numeral)

lemma occurrences_ampamp: "occurrences ''&amp;amp;'' (escapeHtml s) = occurrences ''&amp;'' s"
proof (induction s)
  case Nil
  show ?case by (simp add: escapeHtml_Nil)
next
  case (Cons c cs)
  show ?case
    by (simp only: escapeHtml_Cons occ_ampamp_step occ_amp_source take_amp_escapeHtml Cons.IH)
qed

lemma rehype_tree_reached:
  "reached tree p \<Longrightarrow> hsub tree p = Some n \<Longrightarrow> hsub (rehype_tree tree) p = Some (rehype_tree n)"
proof (induction tree p rule: reached.induct)
  case (1 node)
  then show ?case by simp
next
  case (2 t ps cs i p)
  then show ?case by simp
next
  case (3 cs i p)
  then show ?case by simp
qed simp_all

lemma remark_slot_msub:
  "msub tree p = Some n \<Longrightarrow> msub (remark_slot tree) p = Some (remark_slot n)"
proof (induction tree p rule: msub.induct)
  case (2 k cs i p)
  then show ?case by (simp split: if_splits)
qed simp_all

lemma remark_root_msub:
  "msub tree p = Some n \<Longrightarrow>
   msub (remark_root tree) p = Some (if p = [] then remark_root n else remark_slot n)"
proof (cases p)
  case Nil
  assume "msub tree p = Some n"
  with Nil show ?thesis by simp
next
  case (Cons i q)
  assume a: "msub tree p = Some n"
  show ?thesis
  proof (cases tree)
    case (MParent k cs)
    with a Cons have i: "i < length cs" and s: "msub (cs ! i) q = Some n"
      by (simp_all split: if_splits)
    from remark_slot_msub [OF s] i MParent Cons show ?thesis by simp
  qed (use a Cons in simp_all)
qed

lemma remark_slot_id: "\<not> has_mermaid_code n \<Longrightarrow> remark_slot n = n"
proof (induction n rule: remark_slot.induct)
  case (2 k cs)
  then have "\<And>c. c \<in> set cs \<Longrightarrow> remark_slot c = c"
    by (auto simp: list_ex_iff)
  then have "map remark_slot cs = cs" by (simp add: map_idI)
  then show ?case by simp
qed simp_all

lemma remark_root_id: "\<not> has_mermaid_code n \<Longrightarrow> remark_root n = n"
proof (cases n)
  case (MParent k cs)
  assume "\<not> has_mermaid_code n"
  with MParent have "\<And>c. c \<in> set cs \<Longrightarrow> remark_slot c = c"
    by (auto simp: list_ex_iff intro: remark_slot_id)
  then have "map remark_slot cs = cs" by (simp add: map_idI)
  with MParent show ?thesis by simp
qed simp_all

lemma rehype_tree_id: "\<not> has_mermaid_pre n \<Longrightarrow> rehype_tree n = n"
proof (induction n rule: rehype_tree.induct)
  case (1 t ps cs)
  show ?case
  proof (cases cs)
    case None
    with 1 show ?thesis by simp
  next
    case (Some ks)
    with 1 have "\<And>c. c \<in> set ks \<Longrightarrow> rehype_tree c = c"
      by (auto simp: list_ex_iff)
    then have "map rehype_tree ks = ks" by (simp add: map_idI)
    with 1 Some show ?thesis by simp
  qed
next
  case (2 cs)
  then have "\<And>c. c \<in> set cs \<Longrightarrow> rehype_tree c = c"
    by (auto simp: list_ex_iff)
  then have "map rehype_tree cs = cs" by (simp add: map_idI)
  then show ?case by simp
qed simp_all

section \<open>The claims about the serializer and the transformers\<close>

lemma serialize_text: "serializeHastChildren (HText v # rest) = v @ serializeHastChildren rest"
  by (simp add: serialize_contribution)

lemma serialize_element:
  "serializeHastChildren (HElement t ps cs # rest) =
     ''<'' @ t @ concat (map attribute (case ps of Some p \<Rightarrow> p | None \<Rightarrow> []))
       @ (if t \<in> set selfClosingTags then ''/>''
          else ''>'' @ serializeHastChildren (case cs of Some ks \<Rightarrow> ks | None \<Rightarrow> []) @ ''</'' @ t @ ''>'')
       @ serializeHastChildren rest"
  by (cases cs) (simp_all add: serialize_contribution)

lemma serialize_other:
  "serializeHastChildren (HComment v # rest) = serializeHastChildren rest
   \<and> serializeHastChildren (HDoctype # rest) = serializeHastChildren rest
   \<and> serializeHastChildren (HRoot ks # rest) = serializeHastChildren rest"
  by (simp add: serialize_contribution)

text \<open>
  Claim C5 as it is written fails. The string is not always valid HTML and does not
  always reproduce the children: a property value that holds a double quote ends the
  attribute early; a text that spells a tag and the element of that tag give the same
  string; a comment gives nothing. And a \<^verbatim>\<open>className\<close> whose value is not
  an array is left out, where the claim's layout writes it as any other property.
\<close>

theorem serializeHastChildren_verbatim_counterexample:
  "serializeHastChildren [HElement ''a'' (Some [(''title'', VStr ''x\"y'')]) None]
     = ''<a title=\"x\"y\"></a>''
   \<and> serializeHastChildren [HText ''<u>B</u>'']
     = serializeHastChildren [HElement ''u'' None (Some [HText ''B''])]
   \<and> [HText ''<u>B</u>''] \<noteq> [HElement ''u'' None (Some [HText ''B''])]
   \<and> serializeHastChildren [HComment ''note''] = serializeHastChildren []
   \<and> serializeHastChildren [HElement ''span'' (Some [(''className'', VStr ''solo'')]) (Some [HText ''t''])]
     = ''<span>t</span>''
   \<and> ''<'' @ ''span'' @ concat (map claimed_attribute [(''className'', VStr ''solo'')])
         @ ''>'' @ ''t'' @ ''</'' @ ''span'' @ ''>''
     = ''<span className=\"solo\">t</span>''"
  by (simp add: serializeHastChildren_def selfClosingTags_def claimed_attribute_def)

text \<open>
  Claim C5, amended. For every list of children, \<open>serializeHastChildren\<close> returns
  the concatenation, in order, of what each child contributes, with nothing escaped: a
  text node its value unchanged; an element \<^verbatim>\<open><\<close> and its tag name, then each
  property in stored order as a space, the key and the value between double quotes,
  except \<^verbatim>\<open>className\<close>, which is written as \<^verbatim>\<open>class\<close> with its
  elements joined by single spaces when its value is an array and is left out otherwise;
  then \<^verbatim>\<open>/>\<close> when the tag is one of br, hr, img, input, meta, link, and
  otherwise \<^verbatim>\<open>>\<close>, the serialization of its children and the closing tag; a
  node of any other kind nothing.
\<close>

theorem serializeHastChildren_layout:
  "serializeHastChildren children = concat (map contribution children)
   \<and> serializeHastChildren [] = []
   \<and> serializeHastChildren (HText v # rest) = v @ serializeHastChildren rest
   \<and> serializeHastChildren (HElement t ps cs # rest) =
        ''<'' @ t @ concat (map attribute (case ps of Some p \<Rightarrow> p | None \<Rightarrow> []))
          @ (if t \<in> set selfClosingTags then ''/>''
             else ''>'' @ serializeHastChildren (case cs of Some ks \<Rightarrow> ks | None \<Rightarrow> [])
                    @ ''</'' @ t @ ''>'')
          @ serializeHastChildren rest
   \<and> serializeHastChildren (HComment v # rest) = serializeHastChildren rest
   \<and> serializeHastChildren (HDoctype # rest) = serializeHastChildren rest
   \<and> serializeHastChildren (HRoot ks # rest) = serializeHastChildren rest"
  using serialize_contribution [of children] serialize_contribution [of "[]"]
    serialize_text [of v rest] serialize_element [of t ps cs rest] serialize_other [of v rest ks]
  by simp

theorem serializeHastChildren_layout_witness:
  "serializeHastChildren
     [HText ''A['', HElement ''u'' (Some []) (Some [HText ''B'']), HText '']'',
      HElement ''br'' (Some [(''className'', VArr [IStr ''a'', IStr ''b'']), (''id'', VStr ''x'')]) (Some []),
      HComment ''c'']
   = ''A[<u>B</u>]<br class=\"a b\" id=\"x\"/>''"
proof -
  have "serializeHastChildren
     [HText ''A['', HElement ''u'' (Some []) (Some [HText ''B'']), HText '']'',
      HElement ''br'' (Some [(''className'', VArr [IStr ''a'', IStr ''b'']), (''id'', VStr ''x'')]) (Some []),
      HComment ''c'']
    = concat (map contribution
     [HText ''A['', HElement ''u'' (Some []) (Some [HText ''B'']), HText '']'',
      HElement ''br'' (Some [(''className'', VArr [IStr ''a'', IStr ''b'']), (''id'', VStr ''x'')]) (Some []),
      HComment ''c''])"
    using serializeHastChildren_layout by blast
  then show ?thesis by (simp add: attribute_def selfClosingTags_def)
qed

lemma is_mermaid_pre_iff:
  "is_mermaid_pre (HElement ''pre'' ps cs) =
     (\<exists>cps ccs cls. cs = Some [HElement ''code'' cps ccs]
        \<and> className_of cps = Some (VArr cls) \<and> IStr ''language-mermaid'' \<in> set cls)"
proof (cases "(HElement ''pre'' ps cs)" rule: is_mermaid_pre.cases)
  case (1 tagName props ctag cprops cchildren)
  then show ?thesis by (auto split: option.splits pvalue.splits)
qed auto

lemma rehype_matched:
  assumes "className_of cprops = Some (VArr cls)" and "IStr ''language-mermaid'' \<in> set cls"
  shows "rehype_tree (HElement ''pre'' props (Some [HElement ''code'' cprops cchildren]))
         = HElement ''pre''
             (Some (AList.update ''className'' (VArr [IStr ''mermaid''])
                      (case props of Some ps \<Rightarrow> ps | None \<Rightarrow> [])))
             (Some [HText (escapeHtml (serializeHastChildren
                      (case cchildren of Some cs \<Rightarrow> cs | None \<Rightarrow> [])))])"
  using assms by simp

text \<open>
  Claim C1 as it is written fails for a matching element inside the
  \<^verbatim>\<open>code\<close> of another matching element: the outer element is rewritten first,
  its children become one text, and the traversal never comes to the inner element, which
  is written out as escaped markup in that text.
\<close>

theorem rehype_nested_mermaid_pre_counterexample:
  "is_mermaid_pre
     (HElement ''pre'' None
        (Some [HElement ''code'' (Some [(''className'', VArr [IStr ''language-mermaid''])])
                 (Some [HText ''x''])]))
   \<and> hsub
        (HRoot [HElement ''pre'' None
           (Some [HElement ''code'' (Some [(''className'', VArr [IStr ''language-mermaid''])])
              (Some [HText ''a'',
                     HElement ''pre'' None
                       (Some [HElement ''code'' (Some [(''className'', VArr [IStr ''language-mermaid''])])
                                (Some [HText ''x''])])])])])
        [0, 0, 1]
     = Some (HElement ''pre'' None
        (Some [HElement ''code'' (Some [(''className'', VArr [IStr ''language-mermaid''])])
                 (Some [HText ''x''])]))
   \<and> fst (rehypeMermaidPlugin \<lparr>logger = False\<rparr>
        (HRoot [HElement ''pre'' None
           (Some [HElement ''code'' (Some [(''className'', VArr [IStr ''language-mermaid''])])
              (Some [HText ''a'',
                     HElement ''pre'' None
                       (Some [HElement ''code'' (Some [(''className'', VArr [IStr ''language-mermaid''])])
                                (Some [HText ''x''])])])])])
        \<lparr>path = None\<rparr>)
     = HRoot [HElement ''pre'' (Some [(''className'', VArr [IStr ''mermaid''])])
         (Some [HText ''a&lt;pre&gt;&lt;code class=&quot;language-mermaid&quot;&gt;x&lt;/code&gt;&lt;/pre&gt;''])]
   \<and> hsub (fst (rehypeMermaidPlugin \<lparr>logger = False\<rparr>
        (HRoot [HElement ''pre'' None
           (Some [HElement ''code'' (Some [(''className'', VArr [IStr ''language-mermaid''])])
              (Some [HText ''a'',
                     HElement ''pre'' None
                       (Some [HElement ''code'' (Some [(''className'', VArr [IStr ''language-mermaid''])])
                                (Some [HText ''x''])])])])])
        \<lparr>path = None\<rparr>)) [0, 0, 1]
     = None"
  by (simp add: rehypeMermaidPlugin_def visit_element.simps Let_def logger_info_def
        serializeHastChildren_def selfClosingTags_def escapeHtml_def special_def replacer_def
        htmlEntities_def)

text \<open>
  Claim C1, amended. For every element at a position of the tree that the traversal
  reaches (no matching element strictly above it), with tag \<^verbatim>\<open>pre\<close> and exactly
  one child, that child a \<^verbatim>\<open>code\<close> element whose \<^verbatim>\<open>className\<close> is
  an array holding \<^verbatim>\<open>language-mermaid\<close>: at the same position of the result
  stands the element with its \<^verbatim>\<open>className\<close> replaced by the one-element list
  \<^verbatim>\<open>['mermaid']\<close> and its children replaced by one text node, holding the
  escaped serialization of the children of the \<^verbatim>\<open>code\<close> element. So it is for
  the element as the whole tree. In particular, when the \<^verbatim>\<open>code\<close> element
  holds one plain text, the text node holds that text escaped.
\<close>

theorem rehype_rewrites_mermaid_pre:
  assumes "className_of cprops = Some (VArr cls)" and "IStr ''language-mermaid'' \<in> set cls"
  shows "fst (rehypeMermaidPlugin opts (HElement ''pre'' props (Some [HElement ''code'' cprops cchildren])) vf)
         = HElement ''pre''
             (Some (AList.update ''className'' (VArr [IStr ''mermaid''])
                      (case props of Some ps \<Rightarrow> ps | None \<Rightarrow> [])))
             (Some [HText (escapeHtml (serializeHastChildren
                      (case cchildren of Some cs \<Rightarrow> cs | None \<Rightarrow> [])))])
         \<and> (reached tree p
              \<and> hsub tree p = Some (HElement ''pre'' props (Some [HElement ''code'' cprops cchildren]))
            \<longrightarrow> hsub (fst (rehypeMermaidPlugin opts tree vf)) p
                = Some (HElement ''pre''
                     (Some (AList.update ''className'' (VArr [IStr ''mermaid''])
                              (case props of Some ps \<Rightarrow> ps | None \<Rightarrow> [])))
                     (Some [HText (escapeHtml (serializeHastChildren
                              (case cchildren of Some cs \<Rightarrow> cs | None \<Rightarrow> [])))])))
         \<and> fst (rehypeMermaidPlugin opts (HElement ''pre'' props (Some [HElement ''code'' cprops (Some [HText x])])) vf)
           = HElement ''pre''
               (Some (AList.update ''className'' (VArr [IStr ''mermaid''])
                        (case props of Some ps \<Rightarrow> ps | None \<Rightarrow> [])))
               (Some [HText (escapeHtml x)])"
proof -
  note m = rehype_matched [OF assms, of props cchildren]
  have x: "fst (rehypeMermaidPlugin opts (HElement ''pre'' props (Some [HElement ''code'' cprops (Some [HText x])])) vf)
           = HElement ''pre''
               (Some (AList.update ''className'' (VArr [IStr ''mermaid''])
                        (case props of Some ps \<Rightarrow> ps | None \<Rightarrow> [])))
               (Some [HText (escapeHtml x)])"
    using rehype_matched [OF assms, of props "Some [HText x]"]
    by (simp add: rehype_plugin_tree serialize_contribution)
  have "reached tree p \<Longrightarrow>
        hsub tree p = Some (HElement ''pre'' props (Some [HElement ''code'' cprops cchildren])) \<Longrightarrow>
        hsub (rehype_tree tree) p
          = Some (rehype_tree (HElement ''pre'' props (Some [HElement ''code'' cprops cchildren])))"
    by (rule rehype_tree_reached)
  then have "reached tree p
              \<and> hsub tree p = Some (HElement ''pre'' props (Some [HElement ''code'' cprops cchildren]))
            \<longrightarrow> hsub (fst (rehypeMermaidPlugin opts tree vf)) p
                = Some (HElement ''pre''
                     (Some (AList.update ''className'' (VArr [IStr ''mermaid''])
                              (case props of Some ps \<Rightarrow> ps | None \<Rightarrow> [])))
                     (Some [HText (escapeHtml (serializeHastChildren
                              (case cchildren of Some cs \<Rightarrow> cs | None \<Rightarrow> [])))]))"
    by (simp only: rehype_plugin_tree m) blast
  moreover have "fst (rehypeMermaidPlugin opts (HElement ''pre'' props (Some [HElement ''code'' cprops cchildren])) vf)
         = HElement ''pre''
             (Some (AList.update ''className'' (VArr [IStr ''mermaid''])
                      (case props of Some ps \<Rightarrow> ps | None \<Rightarrow> [])))
             (Some [HText (escapeHtml (serializeHastChildren
                      (case cchildren of Some cs \<Rightarrow> cs | None \<Rightarrow> [])))])"
    by (simp only: rehype_plugin_tree m)
  ultimately show ?thesis using x by blast
qed

theorem rehype_rewrites_mermaid_pre_witness:
  "fst (rehypeMermaidPlugin \<lparr>logger = True\<rparr>
          (HElement ''pre'' None
             (Some [HElement ''code'' (Some [(''className'', VArr [IStr ''language-mermaid''])])
                      (Some [HText ''A-->B & C'', HElement ''br'' None None])]))
          \<lparr>path = None\<rparr>)
   = HElement ''pre'' (Some [(''className'', VArr [IStr ''mermaid''])])
       (Some [HText ''A--&gt;B &amp; C&lt;br/&gt;''])
   \<and> reached
         (HRoot [HText ''t'',
            HElement ''pre'' None
             (Some [HElement ''code'' (Some [(''className'', VArr [IStr ''language-mermaid''])])
                      (Some [HText ''A-->B & C'', HElement ''br'' None None])])]) [1]
   \<and> hsub (fst (rehypeMermaidPlugin \<lparr>logger = True\<rparr>
         (HRoot [HText ''t'',
            HElement ''pre'' None
             (Some [HElement ''code'' (Some [(''className'', VArr [IStr ''language-mermaid''])])
                      (Some [HText ''A-->B & C'', HElement ''br'' None None])])])
         \<lparr>path = None\<rparr>)) [1]
     = Some (HElement ''pre'' (Some [(''className'', VArr [IStr ''mermaid''])])
         (Some [HText ''A--&gt;B &amp; C&lt;br/&gt;'']))"
proof -
  have c: "className_of (Some [(''className'', VArr [IStr ''language-mermaid''])])
           = Some (VArr [IStr ''language-mermaid''])"
    by simp
  have t: "IStr ''language-mermaid'' \<in> set [IStr ''language-mermaid'']" by simp
  have e: "escapeHtml ''A-->B & C<br/>'' = ''A--&gt;B &amp; C&lt;br/&gt;''"
    by (simp add: escapeHtml_concat entity_of_def)
  have s: "serializeHastChildren [HText ''A-->B & C'', HElement ''br'' None None] = ''A-->B & C<br/>''"
    by (simp add: serialize_contribution selfClosingTags_def)
  have r: "reached
         (HRoot [HText ''t'',
            HElement ''pre'' None
             (Some [HElement ''code'' (Some [(''className'', VArr [IStr ''language-mermaid''])])
                      (Some [HText ''A-->B & C'', HElement ''br'' None None])])]) [1]"
    by simp
  have h: "hsub
         (HRoot [HText ''t'',
            HElement ''pre'' None
             (Some [HElement ''code'' (Some [(''className'', VArr [IStr ''language-mermaid''])])
                      (Some [HText ''A-->B & C'', HElement ''br'' None None])])]) [1]
        = Some (HElement ''pre'' None
             (Some [HElement ''code'' (Some [(''className'', VArr [IStr ''language-mermaid''])])
                      (Some [HText ''A-->B & C'', HElement ''br'' None None])]))"
    by simp
  from rehype_rewrites_mermaid_pre [OF c t, of "\<lparr>logger = True\<rparr>" None
      "Some [HText ''A-->B & C'', HElement ''br'' None None]" "\<lparr>path = None\<rparr>"
      "HRoot [HText ''t'',
            HElement ''pre'' None
             (Some [HElement ''code'' (Some [(''className'', VArr [IStr ''language-mermaid''])])
                      (Some [HText ''A-->B & C'', HElement ''br'' None None])])]" "[1]" "[]"] r h
  show ?thesis by (simp add: e s)
qed

lemma filter_update_other:
  "filter (\<lambda>e. fst e \<noteq> k) (AList.update k v ps) = filter (\<lambda>e. fst e \<noteq> k) ps"
  by (induction ps) auto

text \<open>
  Claim C10. When a \<^verbatim>\<open>pre\<close> element is rewritten, every property other than
  \<^verbatim>\<open>className\<close> keeps its value, \<^verbatim>\<open>className\<close> is
  \<^verbatim>\<open>['mermaid']\<close>, and the other properties stay in their order.
\<close>

theorem rehype_keeps_other_properties:
  assumes "className_of cprops = Some (VArr cls)" and "IStr ''language-mermaid'' \<in> set cls"
  shows "(k \<noteq> ''className'' \<longrightarrow>
            map_of (props_of (fst (rehypeMermaidPlugin opts
                (HElement ''pre'' props (Some [HElement ''code'' cprops cchildren])) vf))) k
            = map_of (props_of (HElement ''pre'' props (Some [HElement ''code'' cprops cchildren]))) k)
         \<and> map_of (props_of (fst (rehypeMermaidPlugin opts
                (HElement ''pre'' props (Some [HElement ''code'' cprops cchildren])) vf))) ''className''
            = Some (VArr [IStr ''mermaid''])
         \<and> filter (\<lambda>e. fst e \<noteq> ''className'')
              (props_of (fst (rehypeMermaidPlugin opts
                (HElement ''pre'' props (Some [HElement ''code'' cprops cchildren])) vf)))
            = filter (\<lambda>e. fst e \<noteq> ''className'')
                (props_of (HElement ''pre'' props (Some [HElement ''code'' cprops cchildren])))"
proof -
  have p: "props_of (HElement ''pre'' props (Some [HElement ''code'' cprops cchildren]))
           = (case props of Some ps \<Rightarrow> ps | None \<Rightarrow> [])"
    by (cases props) simp_all
  show ?thesis
    by (simp only: rehype_plugin_tree rehype_matched [OF assms] p props_of.simps
          filter_update_other update_conv')
       simp
qed

theorem rehype_keeps_other_properties_witness:
  "map_of (props_of (fst (rehypeMermaidPlugin \<lparr>logger = False\<rparr>
      (HElement ''pre'' (Some [(''id'', VStr ''d1''), (''className'', VArr [IStr ''x'']), (''dataLine'', VNum ''3'')])
         (Some [HElement ''code'' (Some [(''className'', VArr [IStr ''language-mermaid''])]) (Some [HText ''g''])]))
      \<lparr>path = None\<rparr>))) ''id'' = Some (VStr ''d1'')
   \<and> props_of (fst (rehypeMermaidPlugin \<lparr>logger = False\<rparr>
      (HElement ''pre'' (Some [(''id'', VStr ''d1''), (''className'', VArr [IStr ''x'']), (''dataLine'', VNum ''3'')])
         (Some [HElement ''code'' (Some [(''className'', VArr [IStr ''language-mermaid''])]) (Some [HText ''g''])]))
      \<lparr>path = None\<rparr>))
     = [(''id'', VStr ''d1''), (''className'', VArr [IStr ''mermaid'']), (''dataLine'', VNum ''3'')]"
proof -
  have c: "className_of (Some [(''className'', VArr [IStr ''language-mermaid''])])
           = Some (VArr [IStr ''language-mermaid''])"
    by simp
  have t: "IStr ''language-mermaid'' \<in> set [IStr ''language-mermaid'']" by simp
  have "props_of (fst (rehypeMermaidPlugin \<lparr>logger = False\<rparr>
      (HElement ''pre'' (Some [(''id'', VStr ''d1''), (''className'', VArr [IStr ''x'']), (''dataLine'', VNum ''3'')])
         (Some [HElement ''code'' (Some [(''className'', VArr [IStr ''language-mermaid''])]) (Some [HText ''g''])]))
      \<lparr>path = None\<rparr>))
     = [(''id'', VStr ''d1''), (''className'', VArr [IStr ''mermaid'']), (''dataLine'', VNum ''3'')]"
    by (simp add: rehype_plugin_tree)
  with rehype_keeps_other_properties [OF c t, of "''id''" "\<lparr>logger = False\<rparr>"
      "Some [(''id'', VStr ''d1''), (''className'', VArr [IStr ''x'']), (''dataLine'', VNum ''3'')]"
      "Some [HText ''g'']" "\<lparr>path = None\<rparr>"]
  show ?thesis by simp
qed



text \<open>
  Claim C7 as it is written fails. A \<^verbatim>\<open>pre\<close> with two children is not
  matched, but the traversal goes on into its children, and a matching
  \<^verbatim>\<open>pre\<close> among them is rewritten: the subtree of the outer element is
  changed. And an unmatched \<^verbatim>\<open>pre\<close> inside the \<^verbatim>\<open>code\<close> of a
  matching element is not kept as an element: it is written out in the text of the
  container.
\<close>

theorem rehype_unmatched_pre_counterexample:
  "\<not> is_mermaid_pre
       (HElement ''pre'' None
          (Some [HText ''a'',
                 HElement ''pre'' None
                   (Some [HElement ''code'' (Some [(''className'', VArr [IStr ''language-mermaid''])])
                            (Some [HText ''x''])])]))
   \<and> fst (rehypeMermaidPlugin \<lparr>logger = False\<rparr>
       (HElement ''pre'' None
          (Some [HText ''a'',
                 HElement ''pre'' None
                   (Some [HElement ''code'' (Some [(''className'', VArr [IStr ''language-mermaid''])])
                            (Some [HText ''x''])])]))
       \<lparr>path = None\<rparr>)
     = HElement ''pre'' None
          (Some [HText ''a'',
                 HElement ''pre'' (Some [(''className'', VArr [IStr ''mermaid''])]) (Some [HText ''x''])])
   \<and> fst (rehypeMermaidPlugin \<lparr>logger = False\<rparr>
       (HElement ''pre'' None
          (Some [HText ''a'',
                 HElement ''pre'' None
                   (Some [HElement ''code'' (Some [(''className'', VArr [IStr ''language-mermaid''])])
                            (Some [HText ''x''])])]))
       \<lparr>path = None\<rparr>)
     \<noteq> HElement ''pre'' None
          (Some [HText ''a'',
                 HElement ''pre'' None
                   (Some [HElement ''code'' (Some [(''className'', VArr [IStr ''language-mermaid''])])
                            (Some [HText ''x''])])])
   \<and> \<not> is_mermaid_pre (HElement ''pre'' None (Some [HText ''b'']))
   \<and> hsub
        (HElement ''pre'' None
           (Some [HElement ''code'' (Some [(''className'', VArr [IStr ''language-mermaid''])])
                    (Some [HElement ''pre'' None (Some [HText ''b''])])]))
        [0, 0]
     = Some (HElement ''pre'' None (Some [HText ''b'']))
   \<and> fst (rehypeMermaidPlugin \<lparr>logger = False\<rparr>
        (HElement ''pre'' None
           (Some [HElement ''code'' (Some [(''className'', VArr [IStr ''language-mermaid''])])
                    (Some [HElement ''pre'' None (Some [HText ''b''])])]))
        \<lparr>path = None\<rparr>)
     = HElement ''pre'' (Some [(''className'', VArr [IStr ''mermaid''])])
         (Some [HText ''&lt;pre&gt;b&lt;/pre&gt;''])"
  by (simp add: rehypeMermaidPlugin_def visit_element.simps Let_def logger_info_def
        serializeHastChildren_def selfClosingTags_def escapeHtml_def special_def replacer_def
        htmlEntities_def)

text \<open>
  Claim C7, amended. For every \<^verbatim>\<open>pre\<close> element at a position of the tree that
  the traversal reaches (no matching element strictly above it) that is not matched (it
  has no child or more than one, or its only child is not a \<^verbatim>\<open>code\<close> element,
  or the \<^verbatim>\<open>className\<close> of that child is absent, not an array, or without the
  token): the element is not itself rewritten. At the same position of the result stands
  a \<^verbatim>\<open>pre\<close> with the same properties and as many children, each child being
  what the transformer returns for the original child. When no element in its subtree
  matches, the element and its whole subtree are unchanged. So it is for the element as
  the whole tree.
\<close>

theorem rehype_unmatched_pre:
  assumes "\<not> is_mermaid_pre (HElement ''pre'' ps cs)"
  shows "fst (rehypeMermaidPlugin opts (HElement ''pre'' ps cs) vf)
           = HElement ''pre'' ps (map_option (map (\<lambda>c. fst (rehypeMermaidPlugin opts c vf))) cs)
         \<and> (\<not> has_mermaid_pre (HElement ''pre'' ps cs)
              \<longrightarrow> fst (rehypeMermaidPlugin opts (HElement ''pre'' ps cs) vf) = HElement ''pre'' ps cs)
         \<and> is_mermaid_pre (HElement ''pre'' ps cs) =
             (\<exists>cps ccs cls. cs = Some [HElement ''code'' cps ccs]
                \<and> className_of cps = Some (VArr cls) \<and> IStr ''language-mermaid'' \<in> set cls)
         \<and> (reached tree p \<and> hsub tree p = Some (HElement ''pre'' ps cs)
              \<longrightarrow> hsub (fst (rehypeMermaidPlugin opts tree vf)) p
                  = Some (HElement ''pre'' ps
                            (map_option (map (\<lambda>c. fst (rehypeMermaidPlugin opts c vf))) cs)))
         \<and> (reached tree p \<and> hsub tree p = Some (HElement ''pre'' ps cs)
                \<and> \<not> has_mermaid_pre (HElement ''pre'' ps cs)
              \<longrightarrow> hsub (fst (rehypeMermaidPlugin opts tree vf)) p = Some (HElement ''pre'' ps cs))"
proof -
  have f: "(\<lambda>c. fst (rehypeMermaidPlugin opts c vf)) = rehype_tree"
    by (rule ext) (rule rehype_plugin_tree)
  have n: "rehype_tree (HElement ''pre'' ps cs)
           = HElement ''pre'' ps (map_option (map (\<lambda>c. fst (rehypeMermaidPlugin opts c vf))) cs)"
    using assms by (simp add: f)
  have 1: "fst (rehypeMermaidPlugin opts (HElement ''pre'' ps cs) vf)
           = HElement ''pre'' ps (map_option (map (\<lambda>c. fst (rehypeMermaidPlugin opts c vf))) cs)"
    by (simp only: rehype_plugin_tree n)
  have i: "\<not> has_mermaid_pre (HElement ''pre'' ps cs)
             \<Longrightarrow> rehype_tree (HElement ''pre'' ps cs) = HElement ''pre'' ps cs"
    by (rule rehype_tree_id)
  have 2: "\<not> has_mermaid_pre (HElement ''pre'' ps cs)
              \<longrightarrow> fst (rehypeMermaidPlugin opts (HElement ''pre'' ps cs) vf) = HElement ''pre'' ps cs"
    using i by (simp only: rehype_plugin_tree) blast
  have r: "reached tree p \<Longrightarrow> hsub tree p = Some (HElement ''pre'' ps cs) \<Longrightarrow>
           hsub (fst (rehypeMermaidPlugin opts tree vf)) p = Some (rehype_tree (HElement ''pre'' ps cs))"
    by (simp only: rehype_plugin_tree) (rule rehype_tree_reached)
  have 3: "reached tree p \<and> hsub tree p = Some (HElement ''pre'' ps cs)
              \<longrightarrow> hsub (fst (rehypeMermaidPlugin opts tree vf)) p
                  = Some (HElement ''pre'' ps
                            (map_option (map (\<lambda>c. fst (rehypeMermaidPlugin opts c vf))) cs))"
    using r n by simp
  have 4: "reached tree p \<and> hsub tree p = Some (HElement ''pre'' ps cs)
                \<and> \<not> has_mermaid_pre (HElement ''pre'' ps cs)
              \<longrightarrow> hsub (fst (rehypeMermaidPlugin opts tree vf)) p = Some (HElement ''pre'' ps cs)"
    using r i by simp
  from 1 2 3 4 is_mermaid_pre_iff [of ps cs] show ?thesis by blast
qed

theorem rehype_unmatched_pre_witness:
  "\<not> is_mermaid_pre (HElement ''pre'' (Some [(''id'', VStr ''k'')])
        (Some [HElement ''code'' (Some [(''className'', VArr [IStr ''language-js''])]) (Some [HText ''x < 1''])]))
   \<and> \<not> has_mermaid_pre (HElement ''pre'' (Some [(''id'', VStr ''k'')])
        (Some [HElement ''code'' (Some [(''className'', VArr [IStr ''language-js''])]) (Some [HText ''x < 1''])]))
   \<and> fst (rehypeMermaidPlugin \<lparr>logger = True\<rparr>
        (HElement ''pre'' (Some [(''id'', VStr ''k'')])
          (Some [HElement ''code'' (Some [(''className'', VArr [IStr ''language-js''])]) (Some [HText ''x < 1''])]))
        \<lparr>path = None\<rparr>)
     = HElement ''pre'' (Some [(''id'', VStr ''k'')])
          (Some [HElement ''code'' (Some [(''className'', VArr [IStr ''language-js''])]) (Some [HText ''x < 1''])])
   \<and> reached
        (HRoot [HText ''t'',
           HElement ''pre'' (Some [(''id'', VStr ''k'')])
             (Some [HElement ''code'' (Some [(''className'', VArr [IStr ''language-js''])]) (Some [HText ''x < 1''])])])
        [1]
   \<and> hsub (fst (rehypeMermaidPlugin \<lparr>logger = True\<rparr>
        (HRoot [HText ''t'',
           HElement ''pre'' (Some [(''id'', VStr ''k'')])
             (Some [HElement ''code'' (Some [(''className'', VArr [IStr ''language-js''])]) (Some [HText ''x < 1''])])])
        \<lparr>path = None\<rparr>)) [1]
     = Some (HElement ''pre'' (Some [(''id'', VStr ''k'')])
          (Some [HElement ''code'' (Some [(''className'', VArr [IStr ''language-js''])]) (Some [HText ''x < 1''])]))"
proof -
  let ?n = "HElement ''pre'' (Some [(''id'', VStr ''k'')])
        (Some [HElement ''code'' (Some [(''className'', VArr [IStr ''language-js''])]) (Some [HText ''x < 1''])])"
  have n: "\<not> is_mermaid_pre ?n" by simp
  have h: "\<not> has_mermaid_pre ?n" by simp
  have r: "reached (HRoot [HText ''t'', ?n]) [1]" by simp
  have s: "hsub (HRoot [HText ''t'', ?n]) [1] = Some ?n" by simp
  from rehype_unmatched_pre [OF n, of "\<lparr>logger = True\<rparr>" "\<lparr>path = None\<rparr>"
      "HRoot [HText ''t'', ?n]" "[1]"] n h r s
  show ?thesis by blast
qed

lemma logger_info_quiet: "\<not> logger opts \<Longrightarrow> logger_info opts msg st = st"
  by (simp add: logger_info_def)

lemma rehype_visitor_quiet:
  "\<not> logger opts \<Longrightarrow> logged (snd (rehype_visitor opts vf n st)) = logged st"
  by (cases "(opts, vf, n, st)" rule: rehype_visitor.cases)
     (auto simp: Let_def logger_info_quiet split: option.splits pvalue.splits)

lemma visit_element_quiet:
  "\<not> logger opts \<Longrightarrow> logged (snd (visit_element opts vf node st)) = logged st"
  "\<not> logger opts \<Longrightarrow> logged (snd (visit_element_children opts vf cs st)) = logged st"
proof (induction opts vf node st and opts vf cs st rule: visit_element_visit_element_children.induct)
  case (1 opts vf node st)
  obtain n' st1 where v:
    "(case node of HElement t ps cs \<Rightarrow> rehype_visitor opts vf node st | _ \<Rightarrow> (node, st)) = (n', st1)"
    by (metis surj_pair)
  have st1: "logged st1 = logged st"
  proof (cases node)
    case (HElement t ps cs)
    with v have "st1 = snd (rehype_visitor opts vf node st)" by simp
    then show ?thesis using rehype_visitor_quiet [OF "1.prems"] by simp
  qed (use v in auto)
  note u = visit_element_unfold [OF v]
  show ?case
  proof (cases n')
    case (HElement t ps cs)
    show ?thesis
    proof (cases cs)
      case None
      then show ?thesis unfolding u using HElement st1 by simp
    next
      case (Some ks)
      from "1.IH"(1) [OF v [symmetric] HElement Some "1.prems"] st1
      show ?thesis unfolding u using HElement Some by simp
    qed
  next
    case (HRoot ks)
    from "1.IH"(2) [OF v [symmetric] HRoot "1.prems"] st1
    show ?thesis unfolding u using HRoot by simp
  next
    case (HText x)
    then show ?thesis unfolding u using st1 by simp
  next
    case (HComment x)
    then show ?thesis unfolding u using st1 by simp
  next
    case HDoctype
    then show ?thesis unfolding u using st1 by simp
  qed
next
  case (2 opts vf st)
  show ?case by simp
next
  case (3 opts vf c cs st)
  obtain c' st1 where c: "visit_element opts vf c st = (c', st1)" by (metis surj_pair)
  from "3.IH"(1) [OF "3.prems"] c have "logged st1 = logged st" by simp
  moreover from "3.IH"(2) [OF c [symmetric] "3.prems"]
  have "logged (snd (visit_element_children opts vf cs st1)) = logged st1" .
  ultimately show ?case using c by (simp add: split_beta)
qed

lemma rehype_plugin_quiet: "\<not> logger opts \<Longrightarrow> snd (rehypeMermaidPlugin opts tree vf) = []"
  using visit_element_quiet(1) [of opts vf tree "\<lparr>mermaidCount = 0, logged = []\<rparr>"]
  by (simp add: rehypeMermaidPlugin_def Let_def split_beta logger_info_quiet)

lemma remark_visitor_quiet:
  "\<not> logger opts \<Longrightarrow> logged (snd (remark_visitor opts vf n i parent st)) = logged st"
  by (cases n) (simp_all add: Let_def logger_info_quiet)

lemma visit_code_quiet:
  "\<not> logger opts \<Longrightarrow> logged (snd (visit_code opts vf node st)) = logged st"
  "\<not> logger opts \<Longrightarrow> logged (snd (visit_code_from opts vf cs i st)) = logged st"
proof (induction opts vf node st and opts vf cs i st rule: visit_code_visit_code_from.induct)
  case (1 opts vf node st)
  show ?case
  proof (cases node)
    case (MParent k ks)
    from "1.IH" [OF MParent "1.prems"] MParent show ?thesis
      by (subst visit_code.simps) (simp add: split_beta)
  qed (subst visit_code.simps, simp)+
next
  case (2 opts vf cs i st)
  show ?case
  proof (cases "i < length cs")
    case False
    then show ?thesis by (subst visit_code_from.simps) simp
  next
    case True
    show ?thesis
    proof (cases "cs ! i")
      case (MCode l m v)
      obtain r st1 where r: "remark_visitor opts vf (MCode l m v) (Some i) (Some cs) st = (r, st1)"
        by (metis surj_pair)
      from remark_visitor_quiet [OF "2.prems", of vf "MCode l m v" "Some i" "Some cs" st] r
      have st1: "logged st1 = logged st" by simp
      show ?thesis
      proof (cases r)
        case None
        from "2.IH"(1) [OF True MCode r [symmetric] None "2.prems"] st1
        have "logged (snd (visit_code_from opts vf cs (i + 1) st1)) = logged st" by simp
        moreover have "visit_code_from opts vf cs i st = visit_code_from opts vf cs (i + 1) st1"
          by (subst visit_code_from.simps) (simp add: True MCode r None del: remark_visitor.simps)
        ultimately show ?thesis by simp
      next
        case (Some cs1)
        from "2.IH"(2) [OF True MCode r [symmetric] Some "2.prems"] st1
        have "logged (snd (visit_code_from opts vf cs1 (i + 1) st1)) = logged st" by simp
        moreover have "visit_code_from opts vf cs i st = visit_code_from opts vf cs1 (i + 1) st1"
          by (subst visit_code_from.simps) (simp add: True MCode r Some del: remark_visitor.simps)
        ultimately show ?thesis by simp
      qed
    next
      case (MHtml x)
      obtain c' st1 where c: "visit_code opts vf (MHtml x) st = (c', st1)" by (metis surj_pair)
      from "2.IH"(3) [OF True MHtml "2.prems"] c have st1: "logged st1 = logged st" by simp
      from "2.IH"(4) [OF True MHtml c [symmetric] "2.prems"] st1
      have "logged (snd (visit_code_from opts vf (cs[i := c']) (i + 1) st1)) = logged st" by simp
      moreover have "visit_code_from opts vf cs i st = visit_code_from opts vf (cs[i := c']) (i + 1) st1"
        by (subst visit_code_from.simps) (simp add: True MHtml c)
      ultimately show ?thesis by simp
    next
      case (MLiteral k x)
      obtain c' st1 where c: "visit_code opts vf (MLiteral k x) st = (c', st1)" by (metis surj_pair)
      from "2.IH"(5) [OF True MLiteral "2.prems"] c have st1: "logged st1 = logged st" by simp
      from "2.IH"(6) [OF True MLiteral c [symmetric] "2.prems"] st1
      have "logged (snd (visit_code_from opts vf (cs[i := c']) (i + 1) st1)) = logged st" by simp
      moreover have "visit_code_from opts vf cs i st = visit_code_from opts vf (cs[i := c']) (i + 1) st1"
        by (subst visit_code_from.simps) (simp add: True MLiteral c)
      ultimately show ?thesis by simp
    next
      case (MParent k ks)
      obtain c' st1 where c: "visit_code opts vf (MParent k ks) st = (c', st1)" by (metis surj_pair)
      from "2.IH"(7) [OF True MParent "2.prems"] c have st1: "logged st1 = logged st" by simp
      from "2.IH"(8) [OF True MParent c [symmetric] "2.prems"] st1
      have "logged (snd (visit_code_from opts vf (cs[i := c']) (i + 1) st1)) = logged st" by simp
      moreover have "visit_code_from opts vf cs i st = visit_code_from opts vf (cs[i := c']) (i + 1) st1"
        by (subst visit_code_from.simps) (simp add: True MParent c)
      ultimately show ?thesis by simp
    qed
  qed
qed

lemma remark_plugin_quiet: "\<not> logger opts \<Longrightarrow> snd (remarkMermaidPlugin opts tree vf) = []"
proof -
  assume q: "\<not> logger opts"
  define st0 where "st0 = (case tree of
       MCode lang meta v \<Rightarrow> snd (remark_visitor opts vf tree None None \<lparr>mermaidCount = 0, logged = []\<rparr>)
     | _ \<Rightarrow> \<lparr>mermaidCount = 0, logged = []\<rparr>)"
  have "logged st0 = []"
    unfolding st0_def using remark_visitor_quiet [OF q, of vf tree None None "\<lparr>mermaidCount = 0, logged = []\<rparr>"]
    by (cases tree) (simp_all del: remark_visitor.simps)
  with visit_code_quiet(1) [OF q, of vf tree st0]
  have "logged (snd (visit_code opts vf tree st0)) = []" by simp
  then show ?thesis
    by (simp add: remarkMermaidPlugin_def Let_def split_beta logger_info_quiet [OF q] st0_def
          del: remark_visitor.simps)
qed

text \<open>
  Claim C9. The tree each transformer returns is the same for any two settings of the
  options (with or without an observer); and without an observer nothing is reported.
\<close>

theorem logger_noninterference:
  "fst (rehypeMermaidPlugin opts1 tree vf) = fst (rehypeMermaidPlugin opts2 tree vf)
   \<and> fst (remarkMermaidPlugin opts1 mtree vf) = fst (remarkMermaidPlugin opts2 mtree vf)
   \<and> (\<not> logger opts1 \<longrightarrow>
        snd (rehypeMermaidPlugin opts1 tree vf) = [] \<and> snd (remarkMermaidPlugin opts1 mtree vf) = [])"
  using rehype_plugin_quiet [of opts1 tree vf] remark_plugin_quiet [of opts1 mtree vf]
  by (simp add: rehype_plugin_tree remark_plugin_tree)

theorem logger_noninterference_witness:
  "fst (rehypeMermaidPlugin \<lparr>logger = True\<rparr>
          (HRoot [HElement ''pre'' None
             (Some [HElement ''code'' (Some [(''className'', VArr [IStr ''language-mermaid''])])
                      (Some [HText ''a'']) ])]) \<lparr>path = Some ''p.md''\<rparr>)
   = fst (rehypeMermaidPlugin \<lparr>logger = False\<rparr>
          (HRoot [HElement ''pre'' None
             (Some [HElement ''code'' (Some [(''className'', VArr [IStr ''language-mermaid''])])
                      (Some [HText ''a'']) ])]) \<lparr>path = Some ''p.md''\<rparr>)
   \<and> fst (remarkMermaidPlugin \<lparr>logger = True\<rparr>
          (MParent ''root'' [MCode (Some ''mermaid'') None ''a'']) \<lparr>path = Some ''p.md''\<rparr>)
   = fst (remarkMermaidPlugin \<lparr>logger = False\<rparr>
          (MParent ''root'' [MCode (Some ''mermaid'') None ''a'']) \<lparr>path = Some ''p.md''\<rparr>)
   \<and> snd (remarkMermaidPlugin \<lparr>logger = False\<rparr>
          (MParent ''root'' [MCode (Some ''mermaid'') None ''a'']) \<lparr>path = Some ''p.md''\<rparr>) = []
   \<and> snd (rehypeMermaidPlugin \<lparr>logger = False\<rparr>
          (HRoot [HElement ''pre'' None
             (Some [HElement ''code'' (Some [(''className'', VArr [IStr ''language-mermaid''])])
                      (Some [HText ''a'']) ])]) \<lparr>path = Some ''p.md''\<rparr>) = []"
proof -
  have q: "\<not> logger \<lparr>logger = False\<rparr>" by simp
  from logger_noninterference [of "\<lparr>logger = True\<rparr>"
          "HRoot [HElement ''pre'' None
             (Some [HElement ''code'' (Some [(''className'', VArr [IStr ''language-mermaid''])])
                      (Some [HText ''a'']) ])]" "\<lparr>path = Some ''p.md''\<rparr>" "\<lparr>logger = False\<rparr>"
          "MParent ''root'' [MCode (Some ''mermaid'') None ''a'']"]
       logger_noninterference [of "\<lparr>logger = False\<rparr>"
          "HRoot [HElement ''pre'' None
             (Some [HElement ''code'' (Some [(''className'', VArr [IStr ''language-mermaid''])])
                      (Some [HText ''a'']) ])]" "\<lparr>path = Some ''p.md''\<rparr>" "\<lparr>logger = False\<rparr>"
          "MParent ''root'' [MCode (Some ''mermaid'') None ''a'']"] q
  show ?thesis by blast
qed

text \<open>
  Claim C2. For a code block at index \<open>i\<close> among the children of a parent anywhere in
  the markdown tree: after the transformer the parent is at the same position with the
  same number of children, and its child at index \<open>i\<close> is, when the language tag is
  \<^verbatim>\<open>mermaid\<close>, the raw-HTML node whose text is \<^verbatim>\<open><pre class="mermaid">\<close>,
  the escaped literal text (possibly empty) and \<^verbatim>\<open></pre>\<close>; with any other
  language tag, or none, it is the code block unchanged. A tree in which no code block is
  tagged \<^verbatim>\<open>mermaid\<close> is returned as it is.
\<close>

theorem remark_replaces_mermaid_code:
  "(msub tree p = Some (MParent k cs) \<and> i < length cs \<and> cs ! i = MCode lang meta v \<longrightarrow>
      (\<exists>cs'. msub (fst (remarkMermaidPlugin opts tree vf)) p = Some (MParent k cs')
             \<and> length cs' = length cs
             \<and> cs' ! i = (if lang = Some ''mermaid''
                          then MHtml (''<pre class=\"mermaid\">'' @ escapeHtml v @ ''</pre>'')
                          else MCode lang meta v)))
   \<and> (\<not> has_mermaid_code tree \<longrightarrow> fst (remarkMermaidPlugin opts tree vf) = tree)"
proof -
  have 1: "\<exists>cs'. msub (fst (remarkMermaidPlugin opts tree vf)) p = Some (MParent k cs')
             \<and> length cs' = length cs
             \<and> cs' ! i = (if lang = Some ''mermaid''
                          then MHtml (''<pre class=\"mermaid\">'' @ escapeHtml v @ ''</pre>'')
                          else MCode lang meta v)"
    if a: "msub tree p = Some (MParent k cs)" and i: "i < length cs" and c: "cs ! i = MCode lang meta v"
  proof -
    from remark_root_msub [OF a]
    have "msub (remark_root tree) p = Some (MParent k (map remark_slot cs))"
      by (cases p) simp_all
    moreover have "map remark_slot cs ! i = (if lang = Some ''mermaid''
                          then MHtml (''<pre class=\"mermaid\">'' @ escapeHtml v @ ''</pre>'')
                          else MCode lang meta v)"
      using i c by simp
    ultimately show ?thesis
      by (simp only: remark_plugin_tree) (metis length_map)
  qed
  have 2: "\<not> has_mermaid_code tree \<Longrightarrow> fst (remarkMermaidPlugin opts tree vf) = tree"
    by (simp add: remark_plugin_tree remark_root_id)
  from 1 2 show ?thesis by blast
qed

theorem remark_replaces_mermaid_code_witness:
  "fst (remarkMermaidPlugin \<lparr>logger = True\<rparr>
     (MParent ''root''
        [MLiteral ''text'' ''a'',
         MParent ''blockquote''
           [MCode (Some ''mermaid'') None '''', MCode (Some ''js'') None ''x<1'', MCode (Some ''mermaid'') None ''A-->B'']])
     \<lparr>path = None\<rparr>)
   = MParent ''root''
        [MLiteral ''text'' ''a'',
         MParent ''blockquote''
           [MHtml ''<pre class=\"mermaid\"></pre>'', MCode (Some ''js'') None ''x<1'',
            MHtml ''<pre class=\"mermaid\">A--&gt;B</pre>'']]
   \<and> fst (remarkMermaidPlugin \<lparr>logger = True\<rparr>
       (MParent ''root'' [MCode (Some ''js'') None ''x<1'', MCode None None ''y'']) \<lparr>path = None\<rparr>)
     = MParent ''root'' [MCode (Some ''js'') None ''x<1'', MCode None None ''y'']"
proof -
  let ?t = "MParent ''root''
        [MLiteral ''text'' ''a'',
         MParent ''blockquote''
           [MCode (Some ''mermaid'') None '''', MCode (Some ''js'') None ''x<1'', MCode (Some ''mermaid'') None ''A-->B'']]"
  let ?cs = "[MCode (Some ''mermaid'') None '''', MCode (Some ''js'') None ''x<1'', MCode (Some ''mermaid'') None ''A-->B'']"
  let ?r = "fst (remarkMermaidPlugin \<lparr>logger = True\<rparr> ?t \<lparr>path = None\<rparr>)"
  have m: "msub ?t [1] = Some (MParent ''blockquote'' ?cs)" by simp
  from remark_replaces_mermaid_code [of ?t "[1]" "''blockquote''" ?cs 0 "Some ''mermaid''" None "''''"
      "\<lparr>logger = True\<rparr>" "\<lparr>path = None\<rparr>"] m
  obtain cs' where cs': "msub ?r [1] = Some (MParent ''blockquote'' cs')" "length cs' = 3"
      "cs' ! 0 = MHtml (''<pre class=\"mermaid\">'' @ escapeHtml '''' @ ''</pre>'')"
    by auto
  from remark_replaces_mermaid_code [of ?t "[1]" "''blockquote''" ?cs 1 "Some ''js''" None "''x<1''"
      "\<lparr>logger = True\<rparr>" "\<lparr>path = None\<rparr>"] m cs'(1)
  have c1: "cs' ! 1 = MCode (Some ''js'') None ''x<1''" by auto
  from remark_replaces_mermaid_code [of ?t "[1]" "''blockquote''" ?cs 2 "Some ''mermaid''" None "''A-->B''"
      "\<lparr>logger = True\<rparr>" "\<lparr>path = None\<rparr>"] m cs'(1)
  have c2: "cs' ! 2 = MHtml (''<pre class=\"mermaid\">'' @ escapeHtml ''A-->B'' @ ''</pre>'')" by auto
  have full: "?r = MParent ''root''
        [MLiteral ''text'' ''a'',
         MParent ''blockquote''
           [MHtml ''<pre class=\"mermaid\"></pre>'', MCode (Some ''js'') None ''x<1'',
            MHtml ''<pre class=\"mermaid\">A--&gt;B</pre>'']]"
    by (simp add: remark_plugin_tree escapeHtml_concat entity_of_def)
  have n: "\<not> has_mermaid_code (MParent ''root'' [MCode (Some ''js'') None ''x<1'', MCode None None ''y''])"
    by simp
  from remark_replaces_mermaid_code [of "MParent ''root'' [MCode (Some ''js'') None ''x<1'', MCode None None ''y'']"
      "[]" "''root''" "[]" 0 None None "[]" "\<lparr>logger = True\<rparr>" "\<lparr>path = None\<rparr>"] n
  have "fst (remarkMermaidPlugin \<lparr>logger = True\<rparr>
       (MParent ''root'' [MCode (Some ''js'') None ''x<1'', MCode None None ''y'']) \<lparr>path = None\<rparr>)
     = MParent ''root'' [MCode (Some ''js'') None ''x<1'', MCode None None ''y'']"
    by blast
  with full show ?thesis by blast
qed

text \<open>
  Claim C8 as it is written fails: the diagram source \<^verbatim>\<open>A &amp; B\<close> holds an
  ampersand, and the text the transformer produces for it holds \<^verbatim>\<open>&amp;amp;\<close>:
  the ampersand of the source is escaped once, and the letters after it are the source's
  own.
\<close>

theorem no_double_escaping_counterexample:
  "CHR ''&'' \<in> set ''A &amp; B''
   \<and> fst (remarkMermaidPlugin \<lparr>logger = False\<rparr>
          (MParent ''root'' [MCode (Some ''mermaid'') None ''A &amp; B'']) \<lparr>path = None\<rparr>)
     = MParent ''root'' [MHtml ''<pre class=\"mermaid\">A &amp;amp; B</pre>'']
   \<and> occurrences ''&amp;amp;'' ''<pre class=\"mermaid\">A &amp;amp; B</pre>'' = 1"
  by (simp add: remark_plugin_tree escapeHtml_concat entity_of_def)

text \<open>
  Claim C8, amended. The serializer returns the value of a text node as it is; each
  transformer escapes the diagram source once; in the escaped text \<^verbatim>\<open>&amp;\<close>
  occurs exactly as often as \<^verbatim>\<open>&\<close> occurs in the source, and
  \<^verbatim>\<open>&amp;amp;\<close> occurs exactly as often as \<^verbatim>\<open>&amp;\<close> occurs in the
  source: never because a character was escaped twice.
\<close>

theorem escaped_exactly_once:
  "serializeHastChildren [HText s] = s
   \<and> fst (rehypeMermaidPlugin opts
        (HElement ''pre'' ps
           (Some [HElement ''code'' (Some [(''className'', VArr [IStr ''language-mermaid''])])
                    (Some [HText s])])) vf)
     = HElement ''pre''
         (Some (AList.update ''className'' (VArr [IStr ''mermaid''])
                  (case ps of Some p \<Rightarrow> p | None \<Rightarrow> [])))
         (Some [HText (escapeHtml s)])
   \<and> fst (remarkMermaidPlugin opts (MParent k [MCode (Some ''mermaid'') meta s]) vf)
     = MParent k [MHtml (''<pre class=\"mermaid\">'' @ escapeHtml s @ ''</pre>'')]
   \<and> occurrences ''&amp;'' (escapeHtml s) = count_list s (CHR ''&'')
   \<and> occurrences ''&amp;amp;'' (escapeHtml s) = occurrences ''&amp;'' s"
  by (simp add: rehype_plugin_tree remark_plugin_tree serialize_contribution
        occurrences_amp occurrences_ampamp del: occurrences.simps)

theorem escaped_exactly_once_witness:
  "fst (remarkMermaidPlugin \<lparr>logger = False\<rparr>
          (MParent ''root'' [MCode (Some ''mermaid'') None ''Q & A'']) \<lparr>path = None\<rparr>)
     = MParent ''root'' [MHtml ''<pre class=\"mermaid\">Q &amp; A</pre>'']
   \<and> occurrences ''&amp;'' (escapeHtml ''Q & A'') = 1
   \<and> occurrences ''&amp;amp;'' (escapeHtml ''Q & A'') = 0"
proof -
  have e: "escapeHtml ''Q & A'' = ''Q &amp; A''" by (simp add: escapeHtml_concat entity_of_def)
  from escaped_exactly_once [of "''Q & A''" "\<lparr>logger = False\<rparr>" None "\<lparr>path = None\<rparr>" "''root''" None]
  have "fst (remarkMermaidPlugin \<lparr>logger = False\<rparr>
          (MParent ''root'' [MCode (Some ''mermaid'') None ''Q & A'']) \<lparr>path = None\<rparr>)
        = MParent ''root'' [MHtml (''<pre class=\"mermaid\">'' @ escapeHtml ''Q & A'' @ ''</pre>'')]"
    and "occurrences ''&amp;'' (escapeHtml ''Q & A'') = count_list ''Q & A'' (CHR ''&'')"
    and "occurrences ''&amp;amp;'' (escapeHtml ''Q & A'') = occurrences ''&amp;'' ''Q & A''"
    by blast+
  then show ?thesis by (simp add: e)
qed

end
